theory Spec2Isabelle
  imports Complex_Main "HOL-Library.Sublist"
begin

section \<open>Data exchanged with the detection backend (lib/api)\<close>

text \<open>
  Numbers that are only stored and passed on are kept as their values: counters, sizes
  and frame numbers as \<open>int\<close>/\<open>nat\<close>, fractional quantities (progress, confidence,
  temperatures) as \<open>rat\<close>.  The one computation the dashboard makes on them, the frame
  estimate, is carried out in IEEE 754 double precision (see the section on
  double-precision arithmetic).  Field names are those of the
  TypeScript interfaces; where two interfaces share a field name the later record
  carries a prefix (\<open>frame_detections\<close> is \<open>DetectionSummary.detections\<close>,
  \<open>perf_frames_processed\<close> is \<open>performance.frames_processed\<close>, and the anonymous
  response bodies of \<open>healthCheck\<close>, \<open>uploadVideo\<close> and \<open>startProcessing\<close> use
  \<open>hc_\<close>, \<open>up_\<close> and \<open>sp_\<close>).
\<close>

record thermal_signature =
  mean_temp :: rat
  max_temp :: rat
  area :: rat

record DetectionResult =
  bbox :: "rat \<times> rat \<times> rat \<times> rat"
  confidence :: rat
  class_id :: int
  class_name :: string
  thermal_signature :: "thermal_signature option"

record FrameDetection =
  frame_number :: nat
  timestamp :: rat
  detections :: "DetectionResult list"
  count :: int

record current_video =
  cv_filename :: string
  cv_path :: string
  cv_size :: nat
  cv_uploaded_at :: rat

record ProcessingStatus =
  is_processing :: bool
  progress :: rat
  current_video :: "current_video option"
  detections_count :: int
  slam_status :: string

record performance =
  total_detections :: int
  avg_fps :: rat
  avg_confidence :: rat
  processing_time_ms :: rat
  perf_frames_processed :: int
  video_duration_sec :: rat

record DetectionSummary =
  frame_detections :: "FrameDetection list"
  total_count :: int
  frames_processed :: int
  video :: "string option"
  summary :: "(string \<times> int \<times> rat) list"
  performance :: performance

record health_body =
  hc_message :: string
  hc_status :: string

record upload_body =
  up_message :: string
  up_filename :: string
  up_size :: nat
  up_status :: string

record start_body =
  sp_message :: string
  sp_video :: string
  sp_status :: string
  sp_pipeline :: string

text \<open>A browser \<open>File\<close>: name, declared media type and size in bytes.\<close>

record File =
  file_name :: string
  file_type :: string
  file_size :: nat

section \<open>Thrown values and the transport\<close>

text \<open>
  Everything a \<open>throw\<close> can carry in this code: an \<open>ApiError\<close> (status, message),
  any other \<open>Error\<close> instance (its message; e.g. the \<open>TypeError\<close> of a failed
  \<open>fetch\<close> or the \<open>SyntaxError\<close> of \<open>response.json()\<close>), or a value that is
  not an \<open>Error\<close> at all.
\<close>

datatype js_thrown =
    ApiError nat string
  | OtherError string
  | NotAnError

fun is_ApiError :: "js_thrown \<Rightarrow> bool" where
  "is_ApiError (ApiError s m) = True"
| "is_ApiError (OtherError m) = False"
| "is_ApiError NotAnError = False"

text \<open>
  What the environment does with one \<open>fetch\<close>: the promise rejects, or it yields a
  response with a status code, the result of reading \<open>response.text()\<close> and the result
  of \<open>response.json()\<close> (either of which may throw).
\<close>

datatype 'a fetch_outcome =
    FetchRejected js_thrown
  | FetchResponse nat "js_thrown + string" "js_thrown + 'a"

text \<open>\<open>response.ok\<close> of the Fetch standard: the status is in the range 200 to 299.\<close>

definition response_ok :: "nat \<Rightarrow> bool" where
  "response_ok st = (200 \<le> st \<and> st \<le> 299)"

datatype request =
    GET string
  | POST_json string
  | POST_form string File

definition API_BASE_URL :: string where
  "API_BASE_URL = ''http://localhost:8000''"

text \<open>Calling \<open>fetch\<close> sends one request; the list of sent requests keeps them in order.\<close>

definition fetch_log :: "request \<Rightarrow> request list \<Rightarrow> request list" where
  "fetch_log rq sent = sent @ [rq]"

text \<open>
  How a template string renders an integral number: its decimal digits, with a minus
  sign in front of a negative one.
\<close>

definition digit_char :: "nat \<Rightarrow> char" where
  "digit_char d = ''0123456789'' ! (d mod 10)"

fun decimal :: "nat \<Rightarrow> string" where
  "decimal n = (if 10 \<le> n then decimal (n div 10) else []) @ [digit_char n]"

declare decimal.simps [simp del]

definition number_text :: "int \<Rightarrow> string" where
  "number_text i = (if 0 \<le> i then decimal (nat i) else CHR ''-'' # decimal (nat (- i)))"

section \<open>apiRequest and the api object\<close>

text \<open>
  The \<open>catch\<close> block of \<open>apiRequest\<close>: an \<open>ApiError\<close> is rethrown as it is, anything
  else becomes \<open>ApiError(0, "Network error: ...")\<close>.
\<close>

fun apiRequest_catch :: "js_thrown \<Rightarrow> js_thrown" where
  "apiRequest_catch (ApiError s m) = ApiError s m"
| "apiRequest_catch (OtherError m) = ApiError 0 (''Network error: '' @ m)"
| "apiRequest_catch NotAnError = ApiError 0 ''Network error: Unknown error''"

text \<open>The body of \<open>apiRequest\<close> from the moment \<open>fetch\<close> settles.\<close>

definition apiRequest :: "'a fetch_outcome \<Rightarrow> js_thrown + 'a" where
  "apiRequest oc =
     (case oc of
        FetchRejected e \<Rightarrow> Inl (apiRequest_catch e)
      | FetchResponse st txt js \<Rightarrow>
          if \<not> response_ok st then
            (case txt of
               Inl e \<Rightarrow> Inl (apiRequest_catch e)
             | Inr errorText \<Rightarrow>
                 Inl (apiRequest_catch
                   (ApiError st (if errorText = [] then ''HTTP '' @ decimal st else errorText))))
          else
            (case js of
               Inl e \<Rightarrow> Inl (apiRequest_catch e)
             | Inr v \<Rightarrow> Inr v))"

definition healthCheck_request :: request where
  "healthCheck_request = GET (API_BASE_URL @ ''/'')"

definition healthCheck :: "health_body fetch_outcome \<Rightarrow> js_thrown + health_body" where
  "healthCheck oc = apiRequest oc"

definition uploadVideo_request :: "File \<Rightarrow> request" where
  "uploadVideo_request file = POST_form (API_BASE_URL @ ''/upload-video'') file"

text \<open>\<open>uploadVideo\<close> calls \<open>fetch\<close> itself, outside any \<open>try\<close>.\<close>

definition uploadVideo :: "upload_body fetch_outcome \<Rightarrow> js_thrown + upload_body" where
  "uploadVideo oc =
     (case oc of
        FetchRejected e \<Rightarrow> Inl e
      | FetchResponse st txt js \<Rightarrow>
          if \<not> response_ok st then
            (case txt of
               Inl e \<Rightarrow> Inl e
             | Inr errorText \<Rightarrow>
                 Inl (ApiError st
                   (if errorText = [] then ''Upload failed: HTTP '' @ decimal st
                    else errorText)))
          else
            (case js of
               Inl e \<Rightarrow> Inl e
             | Inr v \<Rightarrow> Inr v))"

definition startProcessing_request :: request where
  "startProcessing_request = POST_json (API_BASE_URL @ ''/start-processing'')"

definition startProcessing :: "start_body fetch_outcome \<Rightarrow> js_thrown + start_body" where
  "startProcessing oc = apiRequest oc"

definition getProcessingStatus_request :: request where
  "getProcessingStatus_request = GET (API_BASE_URL @ ''/processing-status'')"

definition getProcessingStatus :: "ProcessingStatus fetch_outcome \<Rightarrow> js_thrown + ProcessingStatus" where
  "getProcessingStatus oc = apiRequest oc"

definition getDetections_request :: request where
  "getDetections_request = GET (API_BASE_URL @ ''/detections'')"

definition getDetections :: "DetectionSummary fetch_outcome \<Rightarrow> js_thrown + DetectionSummary" where
  "getDetections oc = apiRequest oc"

definition getFrameDetections_request :: "nat \<Rightarrow> request" where
  "getFrameDetections_request frameNumber =
     GET (API_BASE_URL @ ''/detections/frame/'' @ decimal frameNumber)"

definition getFrameDetections :: "FrameDetection fetch_outcome \<Rightarrow> js_thrown + FrameDetection" where
  "getFrameDetections oc = apiRequest oc"

text \<open>
  One complete call of \<open>api.getDetections()\<close> against a transport whose answer to the
  request is \<open>oc\<close>: the request goes out, then the outcome is settled.
\<close>

definition call_getDetections ::
  "DetectionSummary fetch_outcome \<Rightarrow> request list \<Rightarrow> (js_thrown + DetectionSummary) \<times> request list" where
  "call_getDetections oc sent = (getDetections oc, fetch_log getDetections_request sent)"

text \<open>Two calls in a row, as a caller fetching the summary twice would make them.\<close>

definition getDetections_twice ::
  "DetectionSummary fetch_outcome \<Rightarrow> DetectionSummary fetch_outcome \<Rightarrow> request list \<Rightarrow>
     (js_thrown + DetectionSummary) \<times> (js_thrown + DetectionSummary) \<times> request list" where
  "getDetections_twice oc1 oc2 sent =
     (let (r1, sent1) = call_getDetections oc1 sent;
          (r2, sent2) = call_getDetections oc2 sent1
      in (r1, r2, sent2))"

definition count_requests :: "request \<Rightarrow> request list \<Rightarrow> nat" where
  "count_requests rq sent = length (filter (\<lambda>r. r = rq) sent)"

section \<open>api.pollProcessingStatus\<close>

text \<open>
  What one run of the \<open>poll\<close> closure does, in order: it sends a status request, and
  when the request settles it may call \<open>onProgress\<close>, arm a timer for the next round,
  or settle the promise through \<open>resolve\<close> or \<open>reject\<close>.
\<close>

datatype poll_event =
    Requested
  | Snapshot ProcessingStatus
  | TimeoutSet nat
  | Resolved ProcessingStatus
  | Rejected js_thrown

text \<open>
  The body of \<open>poll\<close> after \<open>await this.getProcessingStatus()\<close>.  The callback
  \<open>onProgress\<close> acts on a state of the caller and may throw; the \<open>catch\<close> covers both
  the request and the callback.
\<close>

definition poll_continue ::
  "(ProcessingStatus \<Rightarrow> 's \<Rightarrow> 's \<times> js_thrown option) \<Rightarrow> nat \<Rightarrow>
     ProcessingStatus fetch_outcome \<Rightarrow> 's \<Rightarrow> 's \<times> poll_event list" where
  "poll_continue onProgress intervalMs oc s =
     (case getProcessingStatus oc of
        Inl e \<Rightarrow> (s, [Rejected e])
      | Inr st \<Rightarrow>
          (case onProgress st s of
             (s', Some e) \<Rightarrow> (s', [Snapshot st, Rejected e])
           | (s', None) \<Rightarrow>
               if \<not> is_processing st then (s', [Snapshot st, Resolved st])
               else (s', [Snapshot st, TimeoutSet intervalMs])))"

text \<open>
  One polling loop on its own: the caller's state, the number of status requests sent
  and not yet settled, the delays of the armed timers, and everything done so far.
\<close>

record 's poller =
  observer :: 's
  in_flight :: nat
  timers :: "nat list"
  trace :: "poll_event list"

text \<open>The synchronous part of \<open>poll()\<close>: the status request goes out.\<close>

definition poll_call :: "'s poller \<Rightarrow> 's poller" where
  "poll_call p = p\<lparr>in_flight := in_flight p + 1, trace := trace p @ [Requested]\<rparr>"

text \<open>\<open>pollProcessingStatus\<close> builds the promise and calls \<open>poll()\<close> at once.\<close>

definition pollProcessingStatus :: "'s \<Rightarrow> 's poller" where
  "pollProcessingStatus s0 = poll_call \<lparr>observer = s0, in_flight = 0, timers = [], trace = []\<rparr>"

fun poller_effect :: "poll_event \<Rightarrow> 's poller \<Rightarrow> 's poller" where
  "poller_effect (TimeoutSet ms) p = p\<lparr>timers := timers p @ [ms], trace := trace p @ [TimeoutSet ms]\<rparr>"
| "poller_effect e p = p\<lparr>trace := trace p @ [e]\<rparr>"

text \<open>A status request settles (nothing happens when none is in flight).\<close>

definition status_settles ::
  "(ProcessingStatus \<Rightarrow> 's \<Rightarrow> 's \<times> js_thrown option) \<Rightarrow> nat \<Rightarrow>
     ProcessingStatus fetch_outcome \<Rightarrow> 's poller \<Rightarrow> 's poller" where
  "status_settles onProgress intervalMs oc p =
     (if in_flight p = 0 then p
      else
        (let (s', effs) = poll_continue onProgress intervalMs oc (observer p)
         in fold poller_effect effs (p\<lparr>observer := s', in_flight := in_flight p - 1\<rparr>)))"

text \<open>An armed timer fires and calls \<open>poll\<close> (nothing happens when none is armed).\<close>

definition timer_fires :: "'s poller \<Rightarrow> 's poller" where
  "timer_fires p =
     (case timers p of
        [] \<Rightarrow> p
      | ms # rest \<Rightarrow> poll_call (p\<lparr>timers := rest\<rparr>))"

datatype poller_input =
    StatusSettled "ProcessingStatus fetch_outcome"
  | TimerFired

fun poller_step ::
  "(ProcessingStatus \<Rightarrow> 's \<Rightarrow> 's \<times> js_thrown option) \<Rightarrow> nat \<Rightarrow>
     poller_input \<Rightarrow> 's poller \<Rightarrow> 's poller" where
  "poller_step onProgress intervalMs (StatusSettled oc) p = status_settles onProgress intervalMs oc p"
| "poller_step onProgress intervalMs TimerFired p = timer_fires p"

text \<open>The loop under any schedule of the environment, started by \<open>pollProcessingStatus\<close>.\<close>

definition poller_run ::
  "(ProcessingStatus \<Rightarrow> 's \<Rightarrow> 's \<times> js_thrown option) \<Rightarrow> nat \<Rightarrow>
     poller_input list \<Rightarrow> 's \<Rightarrow> 's poller" where
  "poller_run onProgress intervalMs inputs s0 =
     fold (poller_step onProgress intervalMs) inputs (pollProcessingStatus s0)"


section \<open>Double-precision arithmetic\<close>

text \<open>
  A JavaScript number is an IEEE 754 binary64 value: a finite value, a negative zero, an
  infinity or NaN.  \<open>Num x\<close> is the finite value \<open>x\<close> (with \<open>Num 0\<close> the positive zero).
  Every finite double is a whole multiple of \<open>2 ^ -1074\<close>; in these units it is
  \<open>m * 2 ^ j\<close> with \<open>m\<close> below \<open>2 ^ 53\<close>, and it is below \<open>2 ^ (1024 + 1074)\<close>.
\<close>

datatype js_double = Num rat | NegZero | PosInfinity | NegInfinity | NaN

definition precision :: nat where
  "precision = 53"

definition unit_bits :: nat where
  "unit_bits = 1074"

definition range_bits :: nat where
  "range_bits = 1024"

text \<open>The nearest integer, a tie going to the even one.\<close>

definition half_even :: "rat \<Rightarrow> int" where
  "half_even q =
     (let f = \<lfloor>q\<rfloor>; d = q - of_int f
      in if d < 1 / 2 then f else if 1 / 2 < d then f + 1 else if even f then f else f + 1)"

text \<open>
  How many low bits a value of \<open>n\<close> units cannot keep: none below \<open>2 ^ 53\<close> (which covers
  the subnormal numbers), one more for every doubling from there.
\<close>

function shift_for :: "nat \<Rightarrow> nat" where
  "shift_for n = (if n < 2 ^ precision then 0 else Suc (shift_for (n div 2)))"
  by pat_completeness auto
termination
proof (relation "measure (\<lambda>n. n)")
  show "wf (measure (\<lambda>n. n))" by simp
next
  fix n :: nat
  assume "\<not> n < 2 ^ precision"
  then have "0 < n" by (cases n) simp_all
  then show "(n div 2, n) \<in> measure (\<lambda>n. n)" by simp
qed

declare shift_for.simps [simp del]

text \<open>Rounding a non-negative number of units to the nearest double, ties to even.\<close>

definition round_scaled :: "rat \<Rightarrow> nat" where
  "round_scaled x = (let j = shift_for (nat \<lfloor>x\<rfloor>) in nat (half_even (x / 2 ^ j)) * 2 ^ j)"

text \<open>Rounding a non-negative value; \<open>None\<close> when the rounded value is out of range.\<close>

definition round_magnitude :: "rat \<Rightarrow> rat option" where
  "round_magnitude r =
     (let n = round_scaled (r * 2 ^ unit_bits)
      in if 2 ^ (range_bits + unit_bits) \<le> n then None else Some (of_nat n / 2 ^ unit_bits))"

definition signed_zero :: "bool \<Rightarrow> js_double" where
  "signed_zero negative = (if negative then NegZero else Num 0)"

definition signed_infinity :: "bool \<Rightarrow> js_double" where
  "signed_infinity negative = (if negative then NegInfinity else PosInfinity)"

text \<open>The double for an exact non-zero result with the given sign and magnitude.\<close>

definition round_signed :: "bool \<Rightarrow> rat \<Rightarrow> js_double" where
  "round_signed negative r =
     (case round_magnitude r of
        None \<Rightarrow> signed_infinity negative
      | Some m \<Rightarrow> if m = 0 then signed_zero negative else Num (if negative then - m else m))"

text \<open>The double a number literal or a JSON number stands for.\<close>

definition to_double :: "rat \<Rightarrow> js_double" where
  "to_double r = (if r = 0 then Num 0 else round_signed (r < 0) \<bar>r\<bar>)"

fun sign_bit :: "js_double \<Rightarrow> bool" where
  "sign_bit (Num x) = (x < 0)"
| "sign_bit NegZero = True"
| "sign_bit PosInfinity = False"
| "sign_bit NegInfinity = True"
| "sign_bit NaN = False"

fun is_zero :: "js_double \<Rightarrow> bool" where
  "is_zero (Num x) = (x = 0)"
| "is_zero NegZero = True"
| "is_zero d = False"

fun is_infinite :: "js_double \<Rightarrow> bool" where
  "is_infinite PosInfinity = True"
| "is_infinite NegInfinity = True"
| "is_infinite d = False"

fun magnitude :: "js_double \<Rightarrow> rat" where
  "magnitude (Num x) = \<bar>x\<bar>"
| "magnitude d = 0"

text \<open>The operators \<open>/\<close> and \<open>*\<close> on numbers, and \<open>Math.floor\<close>.\<close>

definition double_div :: "js_double \<Rightarrow> js_double \<Rightarrow> js_double" where
  "double_div a b =
     (if a = NaN \<or> b = NaN then NaN
      else if is_infinite a \<and> is_infinite b then NaN
      else if is_zero a \<and> is_zero b then NaN
      else if is_infinite a then signed_infinity (sign_bit a \<noteq> sign_bit b)
      else if is_infinite b then signed_zero (sign_bit a \<noteq> sign_bit b)
      else if is_zero b then signed_infinity (sign_bit a \<noteq> sign_bit b)
      else if is_zero a then signed_zero (sign_bit a \<noteq> sign_bit b)
      else round_signed (sign_bit a \<noteq> sign_bit b) (magnitude a / magnitude b))"

definition double_mul :: "js_double \<Rightarrow> js_double \<Rightarrow> js_double" where
  "double_mul a b =
     (if a = NaN \<or> b = NaN then NaN
      else if (is_infinite a \<and> is_zero b) \<or> (is_zero a \<and> is_infinite b) then NaN
      else if is_infinite a \<or> is_infinite b then signed_infinity (sign_bit a \<noteq> sign_bit b)
      else if is_zero a \<or> is_zero b then signed_zero (sign_bit a \<noteq> sign_bit b)
      else round_signed (sign_bit a \<noteq> sign_bit b) (magnitude a * magnitude b))"

fun double_floor :: "js_double \<Rightarrow> js_double" where
  "double_floor (Num x) = Num (of_int \<lfloor>x\<rfloor>)"
| "double_floor d = d"

section \<open>TacticalDashboard: component state, handlers and pending asynchronous work\<close>

text \<open>
  The component of the backend-connected dashboard (the version that imports
  \<open>@/lib/api\<close>).  Its \<open>useState\<close> cells form the record below; \<open>videoUrl\<close> only feeds
  the player and is left out.  Setters take effect in program order.  \<open>currentFrame\<close>
  holds what \<open>Math.floor\<close> returned, a double.
\<close>

datatype ui_status = StatusIdle | StatusProcessing | StatusCompleted | StatusError

record dashboard =
  uploadedVideo :: "File option"
  isProcessing :: bool
  progress_state :: rat
  currentFrame :: js_double
  totalFrames :: int
  detectedTargets :: int
  status_state :: ui_status
  detectionSummary :: "DetectionSummary option"
  backendConnected :: bool

datatype toast_variant = Default | Destructive

datatype toast = Toast toast_variant string string

text \<open>
  An activity is one asynchronous computation of the component, held at the point where it
  is suspended.  A polling activity remembers the \<open>totalFrames\<close> value its \<open>onProgress\<close> closure captured
  when \<open>handleStartProcessing\<close> was invoked; a timer activity remembers when it is due.
\<close>

datatype activity =
    AwaitHealth
  | AwaitUpload File
  | AwaitStart int
  | AwaitStatus int
  | AwaitTimer nat int
  | AwaitDetections
  | Finished

record world =
  ui :: dashboard
  toasts :: "toast list"
  console :: "js_thrown list"
  sent :: "request list"
  activities :: "activity list"
  clock :: nat

definition toast_call :: "toast \<Rightarrow> world \<Rightarrow> world" where
  "toast_call t w = w\<lparr>toasts := toasts w @ [t]\<rparr>"

definition send :: "request \<Rightarrow> world \<Rightarrow> world" where
  "send rq w = w\<lparr>sent := fetch_log rq (sent w)\<rparr>"

definition spawn :: "activity \<Rightarrow> world \<Rightarrow> world" where
  "spawn t w = w\<lparr>activities := activities w @ [t]\<rparr>"

definition set_activity :: "nat \<Rightarrow> activity \<Rightarrow> world \<Rightarrow> world" where
  "set_activity i t w = w\<lparr>activities := (activities w)[i := t]\<rparr>"

definition activity_at :: "world \<Rightarrow> nat \<Rightarrow> activity" where
  "activity_at w i = (if i < length (activities w) then activities w ! i else Finished)"

text \<open>\<open>error instanceof Error ? error.message : fallback\<close>.\<close>

fun message_or :: "js_thrown \<Rightarrow> string \<Rightarrow> string" where
  "message_or (ApiError s m) fallback = m"
| "message_or (OtherError m) fallback = m"
| "message_or NotAnError fallback = fallback"

text \<open>The component as first rendered; the mount effect has called \<open>api.healthCheck()\<close>.\<close>

definition initial_dashboard :: dashboard where
  "initial_dashboard =
     \<lparr>uploadedVideo = None, isProcessing = False, progress_state = 0, currentFrame = Num 0,
      totalFrames = 0, detectedTargets = 0, status_state = StatusIdle,
      detectionSummary = None, backendConnected = False\<rparr>"

definition mounted :: world where
  "mounted =
     \<lparr>ui = initial_dashboard, toasts = [], console = [],
      sent = fetch_log healthCheck_request [], activities = [AwaitHealth], clock = 0\<rparr>"

text \<open>\<open>checkBackend\<close> after \<open>await api.healthCheck()\<close>.\<close>

definition checkBackend_settles :: "nat \<Rightarrow> health_body fetch_outcome \<Rightarrow> world \<Rightarrow> world" where
  "checkBackend_settles i oc w =
     (case healthCheck oc of
        Inr body \<Rightarrow> set_activity i Finished (w\<lparr>ui := (ui w)\<lparr>backendConnected := True\<rparr>\<rparr>)
      | Inl e \<Rightarrow>
          set_activity i Finished
            (toast_call (Toast Destructive ''Backend Disconnected''
               ''CV/SLAM processing backend is not available. Start the backend server.'')
               (w\<lparr>ui := (ui w)\<lparr>backendConnected := False\<rparr>\<rparr>)))"

text \<open>\<open>handleVideoUpload\<close> up to its \<open>await\<close>, and from there on.\<close>

definition handleVideoUpload :: "File \<Rightarrow> world \<Rightarrow> world" where
  "handleVideoUpload file w =
     (if \<not> backendConnected (ui w) then
        toast_call (Toast Destructive ''Backend Unavailable''
          ''Cannot upload video. Backend server is not running.'') w
      else spawn (AwaitUpload file) (send (uploadVideo_request file) w))"

definition handleVideoUpload_settles ::
  "nat \<Rightarrow> File \<Rightarrow> upload_body fetch_outcome \<Rightarrow> world \<Rightarrow> world" where
  "handleVideoUpload_settles i file oc w =
     (case uploadVideo oc of
        Inr uploadResult \<Rightarrow>
          set_activity i Finished
            (toast_call (Toast Default ''Video Uploaded''
               (up_filename uploadResult @ '' ready for CV/SLAM analysis''))
               (w\<lparr>ui := (ui w)\<lparr>uploadedVideo := Some file, status_state := StatusIdle,
                                progress_state := 0, currentFrame := Num 0, detectedTargets := 0,
                                detectionSummary := None\<rparr>\<rparr>))
      | Inl e \<Rightarrow>
          set_activity i Finished
            (toast_call (Toast Destructive ''Upload Failed'' (message_or e ''Failed to upload video'')) w))"

text \<open>\<open>onDrop\<close> of VideoUpload, with \<open>handleVideoUpload\<close> as its \<open>onVideoUpload\<close>.\<close>

definition onDrop :: "File list \<Rightarrow> world \<Rightarrow> world" where
  "onDrop acceptedFiles w =
     (case acceptedFiles of
        [] \<Rightarrow> w
      | file # others \<Rightarrow>
          if prefix ''video/'' (file_type file) then
            toast_call (Toast Default ''Video Uploaded'' (file_name file @ '' ready for processing''))
              (handleVideoUpload file w)
          else
            toast_call (Toast Destructive ''Invalid File Type''
              ''Please upload a video file (MP4, AVI, MOV, etc.)'') w)"

text \<open>
  The frame estimate inside the \<open>onProgress\<close> callback,
  \<open>Math.floor((status.progress / 100) * totalFrames)\<close>, with the division and the
  multiplication each rounded to a double; \<open>None\<close> when the guard \<open>totalFrames > 0\<close>
  fails and \<open>setCurrentFrame\<close> is not called.
\<close>

definition estimateFrame :: "rat \<Rightarrow> int \<Rightarrow> js_double option" where
  "estimateFrame progressPercent frames =
     (if frames > 0 then
        Some (double_floor
          (double_mul (double_div (to_double progressPercent) (to_double 100))
             (to_double (of_int frames))))
      else None)"

text \<open>The \<open>onProgress\<close> callback handed to \<open>pollProcessingStatus\<close>; it never throws.\<close>

definition onProgress_callback :: "int \<Rightarrow> ProcessingStatus \<Rightarrow> dashboard \<Rightarrow> dashboard \<times> js_thrown option" where
  "onProgress_callback capturedTotal st d =
     (let d1 = d\<lparr>progress_state := progress st, detectedTargets := detections_count st\<rparr>
      in (case estimateFrame (progress st) capturedTotal of
            Some frame \<Rightarrow> (d1\<lparr>currentFrame := frame\<rparr>, None)
          | None \<Rightarrow> (d1, None)))"

text \<open>\<open>handleStartProcessing\<close> up to \<open>await api.startProcessing()\<close>.\<close>

definition handleStartProcessing :: "world \<Rightarrow> world" where
  "handleStartProcessing w =
     (if uploadedVideo (ui w) = None then
        toast_call (Toast Destructive ''No Video Loaded'' ''Please upload a video file first.'') w
      else if \<not> backendConnected (ui w) then
        toast_call (Toast Destructive ''Backend Unavailable''
          ''Cannot start processing. Backend server is not running.'') w
      else spawn (AwaitStart (totalFrames (ui w))) (send startProcessing_request w))"

text \<open>
  A click on the start button of ControlPanel.  The panel is rendered only while a video
  is held, and the button is disabled while \<open>isProcessing\<close> is set; otherwise the click
  calls \<open>onStartProcessing\<close>, which is \<open>handleStartProcessing\<close>.
\<close>

definition ControlPanel_click :: "world \<Rightarrow> world" where
  "ControlPanel_click w =
     (if uploadedVideo (ui w) = None then w
      else if isProcessing (ui w) then w
      else handleStartProcessing w)"

text \<open>After the start request settles: state reset, toast, and the first \<open>poll()\<close>.\<close>

definition handleStartProcessing_settles ::
  "nat \<Rightarrow> int \<Rightarrow> start_body fetch_outcome \<Rightarrow> world \<Rightarrow> world" where
  "handleStartProcessing_settles i capturedTotal oc w =
     (case startProcessing oc of
        Inr startResult \<Rightarrow>
          set_activity i (AwaitStatus capturedTotal)
            (send getProcessingStatus_request
               (toast_call (Toast Default ''Processing Started''
                  (sp_pipeline startResult @ '' pipeline activated''))
                  (w\<lparr>ui := (ui w)\<lparr>isProcessing := True, status_state := StatusProcessing,
                                   progress_state := 0, currentFrame := Num 0,
                                   detectedTargets := 0\<rparr>\<rparr>)))
      | Inl e \<Rightarrow>
          set_activity i Finished
            (toast_call (Toast Destructive ''Failed to Start Processing''
               (message_or e ''Could not start CV processing'')) w))"

text \<open>
  What the dashboard attaches to the polling promise: the \<open>then\<close> handler up to
  \<open>await api.getDetections()\<close>, the \<open>catch\<close> handler, and the timer of the loop.
\<close>

fun dashboard_effect :: "nat \<Rightarrow> int \<Rightarrow> poll_event \<Rightarrow> world \<Rightarrow> world" where
  "dashboard_effect i capturedTotal (Resolved finalStatus) w =
     set_activity i AwaitDetections
       (send getDetections_request
          (w\<lparr>ui := (ui w)\<lparr>isProcessing := False, status_state := StatusCompleted,
                           progress_state := 100\<rparr>\<rparr>))"
| "dashboard_effect i capturedTotal (Rejected e) w =
     set_activity i Finished
       (toast_call (Toast Destructive ''Processing Failed'' (message_or e ''CV processing failed''))
          (w\<lparr>ui := (ui w)\<lparr>isProcessing := False, status_state := StatusError\<rparr>\<rparr>))"
| "dashboard_effect i capturedTotal (TimeoutSet ms) w =
     set_activity i (AwaitTimer (clock w + ms) capturedTotal) w"
| "dashboard_effect i capturedTotal e w = w"

definition poll_settles :: "nat \<Rightarrow> int \<Rightarrow> ProcessingStatus fetch_outcome \<Rightarrow> world \<Rightarrow> world" where
  "poll_settles i capturedTotal oc w =
     (let (d', effs) = poll_continue (onProgress_callback capturedTotal) 1000 oc (ui w)
      in fold (dashboard_effect i capturedTotal) effs (w\<lparr>ui := d'\<rparr>))"

definition poll_timer_fires :: "nat \<Rightarrow> int \<Rightarrow> world \<Rightarrow> world" where
  "poll_timer_fires i capturedTotal w =
     set_activity i (AwaitStatus capturedTotal) (send getProcessingStatus_request w)"

text \<open>The \<open>then\<close> handler after \<open>await api.getDetections()\<close>.\<close>

definition detections_settle :: "nat \<Rightarrow> DetectionSummary fetch_outcome \<Rightarrow> world \<Rightarrow> world" where
  "detections_settle i oc w =
     (case getDetections oc of
        Inr dets \<Rightarrow>
          set_activity i Finished
            (toast_call (Toast Default ''Processing Complete''
               (''Found '' @ number_text (total_count dets) @ '' targets across '' @
                number_text (frames_processed dets) @ '' frames''))
               (w\<lparr>ui := (ui w)\<lparr>detectionSummary := Some dets,
                                detectedTargets := total_count dets,
                                totalFrames := frames_processed dets\<rparr>\<rparr>))
      | Inl e \<Rightarrow> set_activity i Finished (w\<lparr>console := console w @ [e]\<rparr>))"

text \<open>
  Everything that can happen to the mounted component: user input, a pending request
  of activity \<open>i\<close> settling, a due timer firing, or time passing.  An event that does not
  match the activity it names changes nothing.
\<close>

datatype event =
    Drop "File list"
  | ClickStart
  | HealthSettles nat "health_body fetch_outcome"
  | UploadSettles nat "upload_body fetch_outcome"
  | StartSettles nat "start_body fetch_outcome"
  | StatusSettles nat "ProcessingStatus fetch_outcome"
  | DetectionsSettles nat "DetectionSummary fetch_outcome"
  | TimerFires nat
  | Elapse nat

fun step :: "event \<Rightarrow> world \<Rightarrow> world" where
  "step (Drop files) w = onDrop files w"
| "step ClickStart w = ControlPanel_click w"
| "step (HealthSettles i oc) w =
     (case activity_at w i of AwaitHealth \<Rightarrow> checkBackend_settles i oc w | _ \<Rightarrow> w)"
| "step (UploadSettles i oc) w =
     (case activity_at w i of AwaitUpload file \<Rightarrow> handleVideoUpload_settles i file oc w | _ \<Rightarrow> w)"
| "step (StartSettles i oc) w =
     (case activity_at w i of AwaitStart capturedTotal \<Rightarrow> handleStartProcessing_settles i capturedTotal oc w | _ \<Rightarrow> w)"
| "step (StatusSettles i oc) w =
     (case activity_at w i of AwaitStatus capturedTotal \<Rightarrow> poll_settles i capturedTotal oc w | _ \<Rightarrow> w)"
| "step (DetectionsSettles i oc) w =
     (case activity_at w i of AwaitDetections \<Rightarrow> detections_settle i oc w | _ \<Rightarrow> w)"
| "step (TimerFires i) w =
     (case activity_at w i of
        AwaitTimer due capturedTotal \<Rightarrow> if due \<le> clock w then poll_timer_fires i capturedTotal w else w
      | _ \<Rightarrow> w)"
| "step (Elapse ms) w = w\<lparr>clock := clock w + ms\<rparr>"

definition run :: "event list \<Rightarrow> world \<Rightarrow> world" where
  "run evs w = fold step evs w"

text \<open>Requests the world has sent to one endpoint.\<close>

definition sent_count :: "request \<Rightarrow> world \<Rightarrow> nat" where
  "sent_count rq w = count_requests rq (sent w)"

section \<open>Auxiliary notions used in the statements\<close>


fun is_report :: "poll_event \<Rightarrow> bool" where
  "is_report (Resolved st) = True"
| "is_report (Rejected e) = True"
| "is_report e = False"

definition reports_of :: "poll_event list \<Rightarrow> poll_event list" where
  "reports_of es = filter is_report es"

text \<open>A backend answer that carries a status: HTTP 200 with the status as JSON body.\<close>

definition ok_response :: "'a \<Rightarrow> 'a fetch_outcome" where
  "ok_response v = FetchResponse 200 (Inr []) (Inr v)"


definition plain_status :: "bool \<Rightarrow> rat \<Rightarrow> ProcessingStatus" where
  "plain_status running pct =
     \<lparr>is_processing = running, progress = pct, current_video = None,
      detections_count = 0, slam_status = []\<rparr>"

text \<open>A callback that only counts its calls.\<close>

definition counting_observer :: "ProcessingStatus \<Rightarrow> nat \<Rightarrow> nat \<times> js_thrown option" where
  "counting_observer st n = (Suc n, None)"

text \<open>Work of a polling loop that is still outstanding: requests in flight and armed timers.\<close>

definition outstanding :: "'s poller \<Rightarrow> nat" where
  "outstanding p = in_flight p + length (timers p)"


text \<open>
  The progress value on display after each of a series of snapshots delivered to polling
  activity \<open>i\<close>; between two snapshots the second passes and the timer of the loop fires.
\<close>

fun displayed_progress :: "nat \<Rightarrow> ProcessingStatus list \<Rightarrow> world \<Rightarrow> rat list" where
  "displayed_progress i [] w = []"
| "displayed_progress i (st # sts) w =
     (let w1 = step (StatusSettles i (ok_response st)) w
      in progress_state (ui w1) # displayed_progress i sts (run [Elapse 1000, TimerFires i] w1))"

subsection \<open>Sample inputs\<close>

definition sample_video :: File where
  "sample_video = \<lparr>file_name = ''patrol.mp4'', file_type = ''video/mp4'', file_size = 1048576\<rparr>"

definition second_video :: File where
  "second_video = \<lparr>file_name = ''gate.mov'', file_type = ''video/quicktime'', file_size = 2097152\<rparr>"

definition empty_video :: File where
  "empty_video = \<lparr>file_name = ''empty.mp4'', file_type = ''video/mp4'', file_size = 0\<rparr>"

definition text_file :: File where
  "text_file = \<lparr>file_name = ''notes.txt'', file_type = ''text/plain'', file_size = 12\<rparr>"

definition sample_health :: health_body where
  "sample_health = \<lparr>hc_message = ''CV/SLAM backend'', hc_status = ''running''\<rparr>"

definition sample_upload :: upload_body where
  "sample_upload =
     \<lparr>up_message = ''uploaded'', up_filename = ''patrol.mp4'', up_size = 1048576,
      up_status = ''uploaded''\<rparr>"

definition sample_start :: start_body where
  "sample_start =
     \<lparr>sp_message = ''started'', sp_video = ''patrol.mp4'', sp_status = ''processing'',
      sp_pipeline = ''thermal''\<rparr>"

definition sample_summary :: DetectionSummary where
  "sample_summary =
     \<lparr>frame_detections = [], total_count = 0, frames_processed = 8450, video = Some ''patrol.mp4'',
      summary = [],
      performance = \<lparr>total_detections = 0, avg_fps = 287, avg_confidence = 0,
                      processing_time_ms = 29443, perf_frames_processed = 8450,
                      video_duration_sec = 282\<rparr>\<rparr>"

definition status_with :: "bool \<Rightarrow> rat \<Rightarrow> int \<Rightarrow> ProcessingStatus" where
  "status_with running pct found =
     \<lparr>is_processing = running, progress = pct, current_video = None,
      detections_count = found, slam_status = ''tracking''\<rparr>"

text \<open>The probe has succeeded and a video has been uploaded and acknowledged.\<close>

definition to_ready :: "event list" where
  "to_ready =
     [HealthSettles 0 (ok_response sample_health), Drop [sample_video],
      UploadSettles 1 (ok_response sample_upload)]"

text \<open>From there, one start has been requested and acknowledged: activity 2 is polling.\<close>

definition to_processing :: "event list" where
  "to_processing = to_ready @ [ClickStart, StartSettles 2 (ok_response sample_start)]"

text \<open>A state in which a video is held although the backend flag is off.\<close>

definition disconnected_with_video :: world where
  "disconnected_with_video = mounted\<lparr>ui := initial_dashboard\<lparr>uploadedVideo := Some sample_video\<rparr>\<rparr>"

text \<open>
  The second video is dropped while the status request of the first job is in flight,
  and while the loop of the first job waits on its timer after a status of 30 percent.
\<close>

definition upload_during_request :: world where
  "upload_during_request = run (to_processing @ [Drop [second_video]]) mounted"

definition upload_during_wait :: world where
  "upload_during_wait =
     run (to_processing @
       [StatusSettles 2 (ok_response (status_with True 30 1)), Drop [second_video]]) mounted"

definition server_error :: "ProcessingStatus fetch_outcome" where
  "server_error = FetchResponse 500 (Inr ''Internal Server Error'') (Inl NotAnError)"

section \<open>Errors of the api layer\<close>

lemma apiRequest_catch_is_ApiError: "is_ApiError (apiRequest_catch e)"
  by (cases e) simp_all

lemma apiRequest_catch_network:
  "\<not> is_ApiError t \<Longrightarrow> \<exists>m. apiRequest_catch t = ApiError 0 m \<and> prefix ''Network error:'' m"
  by (cases t) simp_all

lemma apiRequest_Inl_is_ApiError: "apiRequest oc = Inl e \<Longrightarrow> is_ApiError e"
  unfolding apiRequest_def
  by (auto split: fetch_outcome.splits sum.splits if_splits simp: apiRequest_catch_is_ApiError)

text \<open>
  Claim C10, as amended.  Whatever \<open>apiRequest\<close> throws is an \<open>ApiError\<close>, hence so is
  whatever \<open>healthCheck\<close>, \<open>startProcessing\<close>, \<open>getProcessingStatus\<close>, \<open>getDetections\<close>
  and \<open>getFrameDetections\<close> throw.  A response outside 200..299 whose body can be read
  is thrown with its status code and its body text, or with \<open>HTTP <status>\<close> when the
  body text is empty.  A rejected \<open>fetch\<close>, a body that cannot be read and a body that
  is not JSON are thrown with status 0 and a message that starts with
  \<open>Network error:\<close>.  \<open>uploadVideo\<close> throws an \<open>ApiError\<close> with the status code for a
  response outside 200..299 whose body can be read.
\<close>

theorem apiRequest_failures_are_ApiErrors:
  "(apiRequest oc = Inl e \<longrightarrow> is_ApiError e) \<and>
   (healthCheck oc1 = Inl e1 \<longrightarrow> is_ApiError e1) \<and>
   (startProcessing oc2 = Inl e2 \<longrightarrow> is_ApiError e2) \<and>
   (getProcessingStatus oc3 = Inl e3 \<longrightarrow> is_ApiError e3) \<and>
   (getDetections oc4 = Inl e4 \<longrightarrow> is_ApiError e4) \<and>
   (getFrameDetections oc5 = Inl e5 \<longrightarrow> is_ApiError e5) \<and>
   (\<not> response_ok st \<longrightarrow>
      apiRequest (FetchResponse st (Inr body) js) =
        Inl (ApiError st (if body = [] then ''HTTP '' @ decimal st else body))) \<and>
   (\<not> is_ApiError t \<longrightarrow>
      (\<exists>m. apiRequest (FetchRejected t) = Inl (ApiError 0 m) \<and> prefix ''Network error:'' m)) \<and>
   (\<not> is_ApiError t \<and> \<not> response_ok st \<longrightarrow>
      (\<exists>m. apiRequest (FetchResponse st (Inl t) js) = Inl (ApiError 0 m) \<and>
           prefix ''Network error:'' m)) \<and>
   (\<not> is_ApiError t \<and> response_ok st \<longrightarrow>
      (\<exists>m. apiRequest (FetchResponse st rd (Inl t)) = Inl (ApiError 0 m) \<and>
           prefix ''Network error:'' m)) \<and>
   (\<not> response_ok st \<longrightarrow>
      uploadVideo (FetchResponse st (Inr body) ujs) =
        Inl (ApiError st (if body = [] then ''Upload failed: HTTP '' @ decimal st else body)))"
proof (intro conjI impI)
  assume "apiRequest oc = Inl e"
  then show "is_ApiError e" by (rule apiRequest_Inl_is_ApiError)
next
  assume "healthCheck oc1 = Inl e1"
  then show "is_ApiError e1" by (simp add: healthCheck_def apiRequest_Inl_is_ApiError)
next
  assume "startProcessing oc2 = Inl e2"
  then show "is_ApiError e2" by (simp add: startProcessing_def apiRequest_Inl_is_ApiError)
next
  assume "getProcessingStatus oc3 = Inl e3"
  then show "is_ApiError e3" by (simp add: getProcessingStatus_def apiRequest_Inl_is_ApiError)
next
  assume "getDetections oc4 = Inl e4"
  then show "is_ApiError e4" by (simp add: getDetections_def apiRequest_Inl_is_ApiError)
next
  assume "getFrameDetections oc5 = Inl e5"
  then show "is_ApiError e5" by (simp add: getFrameDetections_def apiRequest_Inl_is_ApiError)
next
  assume "\<not> response_ok st"
  then show "apiRequest (FetchResponse st (Inr body) js) =
      Inl (ApiError st (if body = [] then ''HTTP '' @ decimal st else body))"
    by (simp add: apiRequest_def)
next
  assume "\<not> is_ApiError t"
  then show "\<exists>m. apiRequest (FetchRejected t) = Inl (ApiError 0 m) \<and> prefix ''Network error:'' m"
    using apiRequest_catch_network[of t] by (simp add: apiRequest_def)
next
  assume "\<not> is_ApiError t \<and> \<not> response_ok st"
  then show "\<exists>m. apiRequest (FetchResponse st (Inl t) js) = Inl (ApiError 0 m) \<and>
      prefix ''Network error:'' m"
    using apiRequest_catch_network[of t] by (simp add: apiRequest_def)
next
  assume "\<not> is_ApiError t \<and> response_ok st"
  then show "\<exists>m. apiRequest (FetchResponse st rd (Inl t)) = Inl (ApiError 0 m) \<and>
      prefix ''Network error:'' m"
    using apiRequest_catch_network[of t] by (simp add: apiRequest_def)
next
  assume "\<not> response_ok st"
  then show "uploadVideo (FetchResponse st (Inr body) ujs) =
      Inl (ApiError st (if body = [] then ''Upload failed: HTTP '' @ decimal st else body))"
    by (simp add: uploadVideo_def)
qed

text \<open>
  The theorem at concrete outcomes: a failed \<open>fetch\<close> for each method, a 503 with a
  body, a 500 with an empty body, a 502 whose body cannot be read, a 200 whose body is
  not JSON, and a 413 answer to an upload.
\<close>

theorem apiRequest_failures_witness:
  "(apiRequest (FetchRejected (OtherError ''Failed to fetch'')) :: js_thrown + health_body) =
     Inl (ApiError 0 ''Network error: Failed to fetch'') \<and>
   healthCheck (FetchRejected (OtherError ''Failed to fetch'')) =
     Inl (ApiError 0 ''Network error: Failed to fetch'') \<and>
   startProcessing (FetchRejected (OtherError ''Failed to fetch'')) =
     Inl (ApiError 0 ''Network error: Failed to fetch'') \<and>
   getProcessingStatus (FetchRejected (OtherError ''Failed to fetch'')) =
     Inl (ApiError 0 ''Network error: Failed to fetch'') \<and>
   getDetections (FetchRejected (OtherError ''Failed to fetch'')) =
     Inl (ApiError 0 ''Network error: Failed to fetch'') \<and>
   getFrameDetections (FetchRejected (OtherError ''Failed to fetch'')) =
     Inl (ApiError 0 ''Network error: Failed to fetch'') \<and>
   is_ApiError (ApiError 0 ''Network error: Failed to fetch'') \<and>
   \<not> response_ok 503 \<and> \<not> response_ok 502 \<and> response_ok 200 \<and>
   \<not> is_ApiError (OtherError ''Unexpected token'') \<and>
   (apiRequest (FetchResponse 503 (Inr ''Service Unavailable'') (Inl NotAnError))
      :: js_thrown + health_body) = Inl (ApiError 503 ''Service Unavailable'') \<and>
   (apiRequest (FetchResponse 500 (Inr []) (Inl NotAnError))
      :: js_thrown + health_body) = Inl (ApiError 500 ''HTTP 500'') \<and>
   (\<exists>m. (apiRequest (FetchRejected (OtherError ''Unexpected token''))
           :: js_thrown + health_body) = Inl (ApiError 0 m) \<and> prefix ''Network error:'' m) \<and>
   (\<exists>m. (apiRequest (FetchResponse 502 (Inl (OtherError ''Unexpected token'')) (Inl NotAnError))
           :: js_thrown + health_body) = Inl (ApiError 0 m) \<and> prefix ''Network error:'' m) \<and>
   (\<exists>m. (apiRequest (FetchResponse 200 (Inr []) (Inl (OtherError ''Unexpected token'')))
           :: js_thrown + health_body) = Inl (ApiError 0 m) \<and> prefix ''Network error:'' m) \<and>
   uploadVideo (FetchResponse 413 (Inr []) (Inl NotAnError)) =
     Inl (ApiError 413 ''Upload failed: HTTP 413'')"
proof -
  let ?rej = "FetchRejected (OtherError ''Failed to fetch'')"
  let ?err = "ApiError 0 ''Network error: Failed to fetch''"
  have r0: "(apiRequest ?rej :: js_thrown + health_body) = Inl ?err"
    by (simp add: apiRequest_def)
  have r1: "healthCheck ?rej = Inl ?err"
    by (simp add: healthCheck_def apiRequest_def)
  have r2: "startProcessing ?rej = Inl ?err"
    by (simp add: startProcessing_def apiRequest_def)
  have r3: "getProcessingStatus ?rej = Inl ?err"
    by (simp add: getProcessingStatus_def apiRequest_def)
  have r4: "getDetections ?rej = Inl ?err"
    by (simp add: getDetections_def apiRequest_def)
  have r5: "getFrameDetections ?rej = Inl ?err"
    by (simp add: getFrameDetections_def apiRequest_def)
  have codes: "\<not> response_ok 503" "\<not> response_ok 502" "\<not> response_ok 500"
      "\<not> response_ok 413" "response_ok 200"
    by (simp_all add: response_ok_def)
  have other: "\<not> is_ApiError (OtherError ''Unexpected token'')"
    by simp
  note th = apiRequest_failures_are_ApiErrors
    [where oc = "?rej :: health_body fetch_outcome" and e = ?err
       and ?oc1.0 = ?rej and ?e1.0 = ?err and ?oc2.0 = ?rej and ?e2.0 = ?err
       and ?oc3.0 = ?rej and ?e3.0 = ?err and ?oc4.0 = ?rej and ?e4.0 = ?err
       and ?oc5.0 = ?rej and ?e5.0 = ?err]
  have b: "is_ApiError ?err"
    using th[where st = 503 and t = NotAnError and body = "[]"
        and js = "Inl NotAnError :: js_thrown + health_body"
        and rd = "Inr []" and ujs = "Inl NotAnError"]
      r0 r1 r2 r3 r4 r5
    by blast
  have c: "(apiRequest (FetchResponse 503 (Inr ''Service Unavailable'') (Inl NotAnError))
      :: js_thrown + health_body) = Inl (ApiError 503 ''Service Unavailable'')"
    using codes(1) apiRequest_failures_are_ApiErrors
      [where st = 503 and body = "''Service Unavailable''"
         and js = "Inl NotAnError :: js_thrown + health_body"]
    by (simp add: apiRequest_def)
  have d: "(apiRequest (FetchResponse 500 (Inr []) (Inl NotAnError))
      :: js_thrown + health_body) = Inl (ApiError 500 ''HTTP 500'')"
    using codes(3) apiRequest_failures_are_ApiErrors
      [where st = 500 and body = "[]" and js = "Inl NotAnError :: js_thrown + health_body"]
    by (simp add: apiRequest_def decimal.simps digit_char_def)
  have e1: "\<exists>m. (apiRequest (FetchRejected (OtherError ''Unexpected token''))
           :: js_thrown + health_body) = Inl (ApiError 0 m) \<and> prefix ''Network error:'' m"
    using other apiRequest_failures_are_ApiErrors
      [where st = 200 and t = "OtherError ''Unexpected token''"]
    by (simp add: apiRequest_def)
  have e2: "\<exists>m. (apiRequest (FetchResponse 502 (Inl (OtherError ''Unexpected token'')) (Inl NotAnError))
           :: js_thrown + health_body) = Inl (ApiError 0 m) \<and> prefix ''Network error:'' m"
    using other codes(2) apiRequest_failures_are_ApiErrors
      [where st = 502 and t = "OtherError ''Unexpected token''"
         and js = "Inl NotAnError :: js_thrown + health_body"]
    by (simp add: apiRequest_def)
  have e3: "\<exists>m. (apiRequest (FetchResponse 200 (Inr []) (Inl (OtherError ''Unexpected token'')))
           :: js_thrown + health_body) = Inl (ApiError 0 m) \<and> prefix ''Network error:'' m"
    using other codes(5) apiRequest_failures_are_ApiErrors
      [where st = 200 and rd = "Inr []" and t = "OtherError ''Unexpected token''"]
    by (simp add: apiRequest_def)
  have f: "uploadVideo (FetchResponse 413 (Inr []) (Inl NotAnError)) =
     Inl (ApiError 413 ''Upload failed: HTTP 413'')"
    using codes(4) apiRequest_failures_are_ApiErrors
      [where st = 413 and body = "[]" and ujs = "Inl NotAnError"]
    by (simp add: uploadVideo_def decimal.simps digit_char_def)
  from r0 r1 r2 r3 r4 r5 b codes(1,2,5) other c d e1 e2 e3 f show ?thesis by blast
qed

text \<open>
  Claim C10 as first stated fails twice.  A failed \<open>fetch\<close> inside \<open>uploadVideo\<close>
  escapes as the transport's own error, not as an \<open>ApiError\<close>; and a 500 response with
  an empty body is thrown by \<open>apiRequest\<close> with the message \<open>HTTP 500\<close>, which is not the
  body text.
\<close>

theorem uploadVideo_transport_error_escapes:
  "uploadVideo (FetchRejected (OtherError ''Failed to fetch'')) = Inl (OtherError ''Failed to fetch'') \<and>
   \<not> is_ApiError (OtherError ''Failed to fetch'') \<and>
   uploadVideo (FetchResponse 200 (Inr []) (Inl (OtherError ''Unexpected token''))) =
     Inl (OtherError ''Unexpected token'') \<and>
   (apiRequest (FetchResponse 500 (Inr []) (Inl NotAnError)) :: js_thrown + health_body) =
     Inl (ApiError 500 ''HTTP 500'')"
  by (simp add: uploadVideo_def apiRequest_def response_ok_def decimal.simps digit_char_def)

section \<open>Fetching the detection summary\<close>

text \<open>
  Claim C7, as amended.  \<open>getDetections\<close> keeps no cache: every call sends one request to
  \<open>/detections\<close>, so two calls send two; the two results are equal whenever the backend
  gives the same answer to both requests.
\<close>

theorem getDetections_sends_each_time:
  assumes "getDetections_twice oc1 oc2 sent0 = (r1, r2, sent2)"
  shows "sent2 = sent0 @ [getDetections_request, getDetections_request] \<and>
         count_requests getDetections_request sent2 =
           count_requests getDetections_request sent0 + 2 \<and>
         r1 = getDetections oc1 \<and> r2 = getDetections oc2 \<and>
         (oc1 = oc2 \<longrightarrow> r1 = r2)"
  using assms
  by (auto simp: getDetections_twice_def call_getDetections_def fetch_log_def count_requests_def)

theorem getDetections_sends_each_time_witness:
  "getDetections_twice (ok_response sample_summary) (ok_response sample_summary) [healthCheck_request] =
     (Inr sample_summary, Inr sample_summary,
      [healthCheck_request, getDetections_request, getDetections_request]) \<and>
   count_requests getDetections_request
     [healthCheck_request, getDetections_request, getDetections_request] =
     count_requests getDetections_request [healthCheck_request] + 2"
proof -
  have run: "getDetections_twice (ok_response sample_summary) (ok_response sample_summary)
      [healthCheck_request] =
     (Inr sample_summary, Inr sample_summary,
      [healthCheck_request, getDetections_request, getDetections_request])"
    by (simp add: getDetections_twice_def call_getDetections_def fetch_log_def getDetections_def
        apiRequest_def ok_response_def response_ok_def)
  from getDetections_sends_each_time[OF run] run show ?thesis by simp
qed

text \<open>
  Claim C7 as first stated fails: fetching the summary of one completed job twice puts
  two requests on the wire, not one.
\<close>

theorem second_getDetections_hits_network:
  "count_requests getDetections_request
     (snd (snd (getDetections_twice (ok_response sample_summary) (ok_response sample_summary) []))) = 2"
  by (simp add: getDetections_twice_def call_getDetections_def fetch_log_def count_requests_def)


section \<open>The polling loop\<close>

subsection \<open>One report, one request or one timer\<close>

lemma status_settles_budget:
  "length (reports_of (trace (status_settles f ms oc p))) + outstanding (status_settles f ms oc p) =
   length (reports_of (trace p)) + outstanding p"
proof (cases "in_flight p = 0")
  case True
  then show ?thesis by (simp add: status_settles_def)
next
  case False
  then show ?thesis
    by (simp add: status_settles_def poll_continue_def outstanding_def reports_of_def
          split: sum.splits prod.splits option.splits)
qed

lemma timer_fires_budget:
  "length (reports_of (trace (timer_fires p))) + outstanding (timer_fires p) =
   length (reports_of (trace p)) + outstanding p"
  by (cases "timers p") (simp_all add: timer_fires_def outstanding_def poll_call_def reports_of_def)

lemma poller_step_budget:
  "length (reports_of (trace (poller_step f ms inp p))) + outstanding (poller_step f ms inp p) =
   length (reports_of (trace p)) + outstanding p"
  by (cases inp) (simp_all add: status_settles_budget timer_fires_budget)

lemma fold_poller_step_budget:
  "length (reports_of (trace (fold (poller_step f ms) inputs p))) +
     outstanding (fold (poller_step f ms) inputs p) =
   length (reports_of (trace p)) + outstanding p"
  by (induction inputs arbitrary: p) (simp_all add: poller_step_budget)

lemma pollProcessingStatus_fields:
  "observer (pollProcessingStatus s0) = s0"
  "in_flight (pollProcessingStatus s0) = 1"
  "timers (pollProcessingStatus s0) = []"
  "trace (pollProcessingStatus s0) = [Requested]"
  by (simp_all add: pollProcessingStatus_def poll_call_def)

lemma poller_run_budget:
  "length (reports_of (trace (poller_run f ms inputs s0))) + outstanding (poller_run f ms inputs s0) = 1"
  using fold_poller_step_budget[of f ms inputs "pollProcessingStatus s0"]
  by (simp add: poller_run_def pollProcessingStatus_fields outstanding_def reports_of_def)


lemma status_settles_in_flight: "in_flight (status_settles f ms oc p) = in_flight p - 1"
  by (simp add: status_settles_def poll_continue_def
        split: sum.splits prod.splits option.splits)

lemma poller_run_snoc:
  "poller_run f ms (inputs @ [inp]) s0 = poller_step f ms inp (poller_run f ms inputs s0)"
  by (simp add: poller_run_def)

text \<open>
  Claim C3.  Under every schedule of responses and timer expiries, a polling loop has at
  most one status request in flight; it never has a request in flight and a timer armed
  together; and the only step that sends a request is the expiry of its timer, taken
  when no request is in flight.
\<close>

theorem at_most_one_status_request_in_flight:
  "in_flight (poller_run onProgress intervalMs inputs s0) \<le> 1 \<and>
   outstanding (poller_run onProgress intervalMs inputs s0) \<le> 1 \<and>
   (in_flight (poller_run onProgress intervalMs inputs s0) <
      in_flight (poller_run onProgress intervalMs (inputs @ [inp]) s0) \<longrightarrow>
    in_flight (poller_run onProgress intervalMs inputs s0) = 0 \<and> inp = TimerFired)"
proof -
  let ?p = "poller_run onProgress intervalMs inputs s0"
  let ?q = "poller_run onProgress intervalMs (inputs @ [inp]) s0"
  have p: "outstanding ?p \<le> 1"
    using poller_run_budget[of onProgress intervalMs inputs s0] by linarith
  have q: "outstanding ?q \<le> 1"
    using poller_run_budget[of onProgress intervalMs "inputs @ [inp]" s0] by linarith
  have p': "in_flight ?p \<le> 1" using p by (simp add: outstanding_def)
  have q': "in_flight ?q \<le> 1" using q by (simp add: outstanding_def)
  have step: "in_flight ?p < in_flight ?q \<longrightarrow> in_flight ?p = 0 \<and> inp = TimerFired"
  proof
    assume less: "in_flight ?p < in_flight ?q"
    with q' have zero: "in_flight ?p = 0" by linarith
    have "inp = TimerFired"
    proof (cases inp)
      case (StatusSettled oc)
      then have "in_flight ?q = in_flight ?p - 1"
        by (simp add: poller_run_snoc status_settles_in_flight)
      with less show ?thesis by simp
    next
      case TimerFired
      then show ?thesis .
    qed
    with zero show "in_flight ?p = 0 \<and> inp = TimerFired" by simp
  qed
  from p p' step show ?thesis by blast
qed

text \<open>
  The theorem on a loop that has received one running status: nothing is in flight until
  the timer fires, and then exactly one request is.
\<close>

theorem at_most_one_status_request_witness:
  "in_flight (poller_run counting_observer 1000
       [StatusSettled (ok_response (plain_status True 10))] 0) = 0 \<and>
   in_flight (poller_run counting_observer 1000
       ([StatusSettled (ok_response (plain_status True 10))] @ [TimerFired]) 0) = 1 \<and>
   outstanding (poller_run counting_observer 1000
       [StatusSettled (ok_response (plain_status True 10))] 0) \<le> 1"
proof -
  have a: "in_flight (poller_run counting_observer 1000
       [StatusSettled (ok_response (plain_status True 10))] 0) = 0"
    by (simp add: poller_run_def pollProcessingStatus_def poll_call_def status_settles_def
        poll_continue_def getProcessingStatus_def apiRequest_def ok_response_def response_ok_def
        counting_observer_def plain_status_def)
  have b: "in_flight (poller_run counting_observer 1000
       ([StatusSettled (ok_response (plain_status True 10))] @ [TimerFired]) 0) = 1"
    by (simp add: poller_run_def pollProcessingStatus_def poll_call_def status_settles_def
        poll_continue_def getProcessingStatus_def apiRequest_def ok_response_def response_ok_def
        counting_observer_def plain_status_def timer_fires_def)
  from at_most_one_status_request_in_flight
    [of counting_observer 1000 "[StatusSettled (ok_response (plain_status True 10))]" 0 TimerFired]
    a b
  show ?thesis by simp
qed

subsection \<open>The loop against a scripted backend\<close>














section \<open>The dashboard\<close>

lemmas world_eval =
  run_def mounted_def initial_dashboard_def activity_at_def checkBackend_settles_def
  handleVideoUpload_def handleVideoUpload_settles_def onDrop_def estimateFrame_def
  onProgress_callback_def handleStartProcessing_def ControlPanel_click_def
  handleStartProcessing_settles_def poll_settles_def poll_timer_fires_def detections_settle_def
  sent_count_def count_requests_def toast_call_def send_def spawn_def set_activity_def fetch_log_def
  healthCheck_def uploadVideo_def startProcessing_def getProcessingStatus_def getDetections_def
  apiRequest_def response_ok_def ok_response_def poll_continue_def
  healthCheck_request_def uploadVideo_request_def startProcessing_request_def
  getProcessingStatus_request_def getDetections_request_def API_BASE_URL_def

lemmas sample_eval =
  to_ready_def to_processing_def sample_video_def second_video_def empty_video_def text_file_def
  sample_health_def sample_upload_def sample_start_def sample_summary_def status_with_def
  disconnected_with_video_def

lemma activity_at_in_range: "activity_at w i \<noteq> Finished \<Longrightarrow> i < length (activities w)"
  by (simp add: activity_at_def split: if_splits)

lemma poll_settles_ok:
  "poll_settles i capturedTotal (ok_response st) w =
     (if is_processing st then
        set_activity i (AwaitTimer (clock w + 1000) capturedTotal)
          (w\<lparr>ui := fst (onProgress_callback capturedTotal st (ui w))\<rparr>)
      else
        set_activity i AwaitDetections
          (send getDetections_request
             (w\<lparr>ui := (fst (onProgress_callback capturedTotal st (ui w)))
                     \<lparr>isProcessing := False, status_state := StatusCompleted,
                      progress_state := 100\<rparr>\<rparr>)))"
  by (simp add: poll_settles_def poll_continue_def getProcessingStatus_def apiRequest_def
        ok_response_def response_ok_def onProgress_callback_def set_activity_def send_def Let_def
        split: option.splits)

lemma onProgress_callback_fields:
  "progress_state (fst (onProgress_callback capturedTotal st d)) = progress st"
  "detectedTargets (fst (onProgress_callback capturedTotal st d)) = detections_count st"
  "uploadedVideo (fst (onProgress_callback capturedTotal st d)) = uploadedVideo d"
  "backendConnected (fst (onProgress_callback capturedTotal st d)) = backendConnected d"
  "snd (onProgress_callback capturedTotal st d) = None"
  by (simp_all add: onProgress_callback_def Let_def split: option.splits)

lemma poll_settles_failed:
  assumes "getProcessingStatus oc = Inl e"
  shows "poll_settles i capturedTotal oc w =
     set_activity i Finished
       (toast_call (Toast Destructive ''Processing Failed'' (message_or e ''CV processing failed''))
          (w\<lparr>ui := (ui w)\<lparr>isProcessing := False, status_state := StatusError\<rparr>\<rparr>))"
  using assms by (simp add: poll_settles_def poll_continue_def)

lemma upload_accepted:
  assumes "activity_at w i = AwaitUpload file" and "uploadVideo oc = Inr body"
  shows "step (UploadSettles i oc) w =
     set_activity i Finished
       (toast_call (Toast Default ''Video Uploaded''
          (up_filename body @ '' ready for CV/SLAM analysis''))
          (w\<lparr>ui := (ui w)\<lparr>uploadedVideo := Some file, status_state := StatusIdle,
                           progress_state := 0, currentFrame := Num 0, detectedTargets := 0,
                           detectionSummary := None\<rparr>\<rparr>))"
  using assms by (simp add: handleVideoUpload_settles_def)

lemma activity_at_set_other:
  "j \<noteq> i \<Longrightarrow> activities w' = activities w \<Longrightarrow>
   activity_at (set_activity i t w') j = activity_at w j"
  by (simp add: activity_at_def set_activity_def)

lemma poll_round_trip:
  assumes "activity_at w i = AwaitStatus capturedTotal" and "is_processing st"
  shows "activity_at (run [Elapse 1000, TimerFires i] (step (StatusSettles i (ok_response st)) w)) i =
           AwaitStatus capturedTotal"
    and "progress_state (ui (step (StatusSettles i (ok_response st)) w)) = progress st"
proof -
  have len: "i < length (activities w)"
    using assms(1) by (intro activity_at_in_range) simp
  have s1: "step (StatusSettles i (ok_response st)) w =
      set_activity i (AwaitTimer (clock w + 1000) capturedTotal)
          (w\<lparr>ui := fst (onProgress_callback capturedTotal st (ui w))\<rparr>)"
    using assms by (simp add: poll_settles_ok)
  show "progress_state (ui (step (StatusSettles i (ok_response st)) w)) = progress st"
    unfolding s1 by (simp add: set_activity_def onProgress_callback_fields)
  show "activity_at (run [Elapse 1000, TimerFires i] (step (StatusSettles i (ok_response st)) w)) i =
           AwaitStatus capturedTotal"
    unfolding s1 using len
    by (simp add: run_def activity_at_def set_activity_def poll_timer_fires_def send_def)
qed

lemma displayed_progress_ongoing:
  "activity_at w i = AwaitStatus capturedTotal \<Longrightarrow> list_all is_processing sts \<Longrightarrow>
   displayed_progress i sts w = map progress sts"
proof (induction sts arbitrary: w)
  case Nil
  show ?case by simp
next
  case (Cons st sts)
  from Cons.prems have st: "is_processing st" and rest: "list_all is_processing sts"
    by simp_all
  note rt = poll_round_trip[OF Cons.prems(1) st]
  have "displayed_progress i sts
          (run [Elapse 1000, TimerFires i] (step (StatusSettles i (ok_response st)) w)) =
        map progress sts"
    using rt(1) rest by (rule Cons.IH)
  with rt(2) show ?case by (simp add: Let_def)
qed

lemma activity_at_elapse: "activity_at (step (Elapse ms) x) j = activity_at x j"
  by (simp add: activity_at_def)

lemma clock_elapse: "clock (step (Elapse ms) x) = clock x + ms"
  by simp

lemma timer_expiry:
  assumes "activity_at w j = AwaitTimer due capturedTotal" and "due \<le> clock w"
  shows "step (TimerFires j) w =
     set_activity j (AwaitStatus capturedTotal) (send getProcessingStatus_request w)"
  using assms by (simp add: poll_timer_fires_def)

subsection \<open>A new upload while a job is being polled\<close>

text \<open>
  Claim C1, as amended.  When an upload is accepted while a job is being polled, the
  dashboard replaces the asset and resets the displayed job (status idle, progress 0,
  frame 0, targets 0, no summary), but nothing invalidates the poll of the old job: there
  is no generation token, and every other activity, be it a status request in flight or
  the timer between two requests, is left as it was.  From then on the old loop goes on
  as before.  Every running status it receives is passed to the progress callback and
  overwrites the displayed progress and target count, without any toast, and arms the
  next timer, whose expiry sends the next status request.  A status that reports the end
  of processing marks the dashboard completed with progress 100 and sends the request
  for the detections.  A failed status request marks the dashboard as failed and shows
  a \<open>Processing Failed\<close> toast.  No result of the old job is discarded.
\<close>

theorem accepted_upload_leaves_poll_running:
  assumes "activity_at w i = AwaitUpload file"
    and "uploadVideo oc = Inr body"
  shows "let w1 = step (UploadSettles i oc) w
         in uploadedVideo (ui w1) = Some file \<and>
            status_state (ui w1) = StatusIdle \<and>
            progress_state (ui w1) = 0 \<and>
            currentFrame (ui w1) = Num 0 \<and>
            detectedTargets (ui w1) = 0 \<and>
            detectionSummary (ui w1) = None \<and>
            isProcessing (ui w1) = isProcessing (ui w) \<and>
            clock w1 = clock w \<and>
            sent w1 = sent w \<and>
            (\<forall>j. j \<noteq> i \<longrightarrow> activity_at w1 j = activity_at w j) \<and>
            (activity_at w j = AwaitStatus capturedTotal \<and> list_all is_processing sts \<longrightarrow>
               displayed_progress j sts w1 = map progress sts) \<and>
            (activity_at w j = AwaitTimer due capturedTotal \<and> list_all is_processing sts \<longrightarrow>
               displayed_progress j sts (run [Elapse (due - clock w), TimerFires j] w1) =
                 map progress sts) \<and>
            (activity_at v k = AwaitStatus n \<longrightarrow>
               progress_state (ui (step (StatusSettles k (ok_response st)) v)) =
                 (if is_processing st then progress st else 100) \<and>
               detectedTargets (ui (step (StatusSettles k (ok_response st)) v)) =
                 detections_count st \<and>
               toasts (step (StatusSettles k (ok_response st)) v) = toasts v \<and>
               console (step (StatusSettles k (ok_response st)) v) = console v \<and>
               (is_processing st \<longrightarrow>
                  activity_at (step (StatusSettles k (ok_response st)) v) k =
                    AwaitTimer (clock v + 1000) n) \<and>
               (\<not> is_processing st \<longrightarrow>
                  status_state (ui (step (StatusSettles k (ok_response st)) v)) = StatusCompleted \<and>
                  \<not> isProcessing (ui (step (StatusSettles k (ok_response st)) v)) \<and>
                  sent (step (StatusSettles k (ok_response st)) v) =
                    sent v @ [getDetections_request] \<and>
                  activity_at (step (StatusSettles k (ok_response st)) v) k = AwaitDetections)) \<and>
            (activity_at v k = AwaitStatus n \<and> getProcessingStatus failed = Inl e \<longrightarrow>
               status_state (ui (step (StatusSettles k failed) v)) = StatusError \<and>
               \<not> isProcessing (ui (step (StatusSettles k failed) v)) \<and>
               toasts (step (StatusSettles k failed) v) =
                 toasts v @
                   [Toast Destructive ''Processing Failed'' (message_or e ''CV processing failed'')] \<and>
               activity_at (step (StatusSettles k failed) v) k = Finished) \<and>
            (activity_at v k = AwaitTimer expiry n \<and> expiry \<le> clock v \<longrightarrow>
               activity_at (step (TimerFires k) v) k = AwaitStatus n \<and>
               sent (step (TimerFires k) v) = sent v @ [getProcessingStatus_request] \<and>
               ui (step (TimerFires k) v) = ui v)"
proof -
  let ?w1 = "step (UploadSettles i oc) w"
  note acc = upload_accepted[OF assms]
  have f1: "uploadedVideo (ui ?w1) = Some file"
    and f2: "status_state (ui ?w1) = StatusIdle"
    and f3: "progress_state (ui ?w1) = 0"
    and f4: "currentFrame (ui ?w1) = Num 0"
    and f5: "detectedTargets (ui ?w1) = 0"
    and f6: "detectionSummary (ui ?w1) = None"
    and f7: "isProcessing (ui ?w1) = isProcessing (ui w)"
    and f8: "clock ?w1 = clock w"
    and f9: "sent ?w1 = sent w"
    unfolding acc by (simp_all add: set_activity_def toast_call_def)
  have others: "\<forall>j. j \<noteq> i \<longrightarrow> activity_at ?w1 j = activity_at w j"
    unfolding acc by (simp add: activity_at_def set_activity_def toast_call_def)
  have ij: "activity_at w j \<noteq> AwaitUpload file \<Longrightarrow> j \<noteq> i" for j
    using assms(1) by auto
  have inflight: "activity_at w j = AwaitStatus capturedTotal \<and> list_all is_processing sts \<longrightarrow>
      displayed_progress j sts ?w1 = map progress sts"
  proof
    assume a: "activity_at w j = AwaitStatus capturedTotal \<and> list_all is_processing sts"
    then have "j \<noteq> i" by (intro ij) simp
    with others a have "activity_at ?w1 j = AwaitStatus capturedTotal" by simp
    with a show "displayed_progress j sts ?w1 = map progress sts"
      by (intro displayed_progress_ongoing) simp_all
  qed
  have waiting: "activity_at w j = AwaitTimer due capturedTotal \<and> list_all is_processing sts \<longrightarrow>
      displayed_progress j sts (run [Elapse (due - clock w), TimerFires j] ?w1) = map progress sts"
  proof
    assume a: "activity_at w j = AwaitTimer due capturedTotal \<and> list_all is_processing sts"
    then have "j \<noteq> i" by (intro ij) simp
    with others a have t: "activity_at ?w1 j = AwaitTimer due capturedTotal" by simp
    let ?w2 = "step (Elapse (due - clock w)) ?w1"
    have t2: "activity_at ?w2 j = AwaitTimer due capturedTotal"
      using t by (simp only: activity_at_elapse)
    have c2: "due \<le> clock ?w2" unfolding clock_elapse f8 by simp
    have len: "j < length (activities ?w2)"
      using t2 by (intro activity_at_in_range) simp
    have "activity_at (step (TimerFires j) ?w2) j = AwaitStatus capturedTotal"
      unfolding timer_expiry[OF t2 c2] using len
      by (simp add: activity_at_def set_activity_def send_def)
    then have "activity_at (run [Elapse (due - clock w), TimerFires j] ?w1) j =
        AwaitStatus capturedTotal"
      by (simp add: run_def)
    with a show "displayed_progress j sts (run [Elapse (due - clock w), TimerFires j] ?w1) =
        map progress sts"
      by (intro displayed_progress_ongoing) simp_all
  qed
  have later: "activity_at v k = AwaitStatus n \<longrightarrow>
       progress_state (ui (step (StatusSettles k (ok_response st)) v)) =
         (if is_processing st then progress st else 100) \<and>
       detectedTargets (ui (step (StatusSettles k (ok_response st)) v)) =
         detections_count st \<and>
       toasts (step (StatusSettles k (ok_response st)) v) = toasts v \<and>
       console (step (StatusSettles k (ok_response st)) v) = console v \<and>
       (is_processing st \<longrightarrow>
          activity_at (step (StatusSettles k (ok_response st)) v) k =
            AwaitTimer (clock v + 1000) n) \<and>
       (\<not> is_processing st \<longrightarrow>
          status_state (ui (step (StatusSettles k (ok_response st)) v)) = StatusCompleted \<and>
          \<not> isProcessing (ui (step (StatusSettles k (ok_response st)) v)) \<and>
          sent (step (StatusSettles k (ok_response st)) v) =
            sent v @ [getDetections_request] \<and>
          activity_at (step (StatusSettles k (ok_response st)) v) k = AwaitDetections)"
  proof
    assume a: "activity_at v k = AwaitStatus n"
    then have len: "k < length (activities v)"
      by (intro activity_at_in_range) simp
    have s: "step (StatusSettles k (ok_response st)) v = poll_settles k n (ok_response st) v"
      using a by simp
    show "progress_state (ui (step (StatusSettles k (ok_response st)) v)) =
         (if is_processing st then progress st else 100) \<and>
       detectedTargets (ui (step (StatusSettles k (ok_response st)) v)) =
         detections_count st \<and>
       toasts (step (StatusSettles k (ok_response st)) v) = toasts v \<and>
       console (step (StatusSettles k (ok_response st)) v) = console v \<and>
       (is_processing st \<longrightarrow>
          activity_at (step (StatusSettles k (ok_response st)) v) k =
            AwaitTimer (clock v + 1000) n) \<and>
       (\<not> is_processing st \<longrightarrow>
          status_state (ui (step (StatusSettles k (ok_response st)) v)) = StatusCompleted \<and>
          \<not> isProcessing (ui (step (StatusSettles k (ok_response st)) v)) \<and>
          sent (step (StatusSettles k (ok_response st)) v) =
            sent v @ [getDetections_request] \<and>
          activity_at (step (StatusSettles k (ok_response st)) v) k = AwaitDetections)"
      unfolding s poll_settles_ok using len
      by (simp add: set_activity_def send_def fetch_log_def activity_at_def
            onProgress_callback_fields)
  qed
  have failing: "activity_at v k = AwaitStatus n \<and> getProcessingStatus failed = Inl e \<longrightarrow>
       status_state (ui (step (StatusSettles k failed) v)) = StatusError \<and>
       \<not> isProcessing (ui (step (StatusSettles k failed) v)) \<and>
       toasts (step (StatusSettles k failed) v) =
         toasts v @
           [Toast Destructive ''Processing Failed'' (message_or e ''CV processing failed'')] \<and>
       activity_at (step (StatusSettles k failed) v) k = Finished"
  proof
    assume a: "activity_at v k = AwaitStatus n \<and> getProcessingStatus failed = Inl e"
    then have len: "k < length (activities v)"
      by (intro activity_at_in_range) simp
    from a have s: "step (StatusSettles k failed) v = poll_settles k n failed v"
      by simp
    from a have f: "getProcessingStatus failed = Inl e" by simp
    show "status_state (ui (step (StatusSettles k failed) v)) = StatusError \<and>
       \<not> isProcessing (ui (step (StatusSettles k failed) v)) \<and>
       toasts (step (StatusSettles k failed) v) =
         toasts v @
           [Toast Destructive ''Processing Failed'' (message_or e ''CV processing failed'')] \<and>
       activity_at (step (StatusSettles k failed) v) k = Finished"
      unfolding s poll_settles_failed[OF f] using len
      by (simp add: set_activity_def toast_call_def activity_at_def)
  qed
  have expiring: "activity_at v k = AwaitTimer expiry n \<and> expiry \<le> clock v \<longrightarrow>
       activity_at (step (TimerFires k) v) k = AwaitStatus n \<and>
       sent (step (TimerFires k) v) = sent v @ [getProcessingStatus_request] \<and>
       ui (step (TimerFires k) v) = ui v"
  proof
    assume a: "activity_at v k = AwaitTimer expiry n \<and> expiry \<le> clock v"
    then have len: "k < length (activities v)"
      by (intro activity_at_in_range) simp
    from a have t: "activity_at v k = AwaitTimer expiry n" and c: "expiry \<le> clock v"
      by simp_all
    show "activity_at (step (TimerFires k) v) k = AwaitStatus n \<and>
       sent (step (TimerFires k) v) = sent v @ [getProcessingStatus_request] \<and>
       ui (step (TimerFires k) v) = ui v"
      unfolding timer_expiry[OF t c] using len
      by (simp add: set_activity_def send_def fetch_log_def activity_at_def)
  qed
  show ?thesis
    unfolding Let_def
    by (intro conjI) (fact f1 f2 f3 f4 f5 f6 f7 f8 f9 others inflight waiting later failing expiring)+
qed

text \<open>
  The theorem on the sample session, with the second video accepted while the status
  request of the first job is in flight and while its loop waits on the timer; afterwards
  the old loop receives running statuses, a final status, and an answer with status 500.
\<close>

theorem accepted_upload_leaves_poll_running_witness:
  "activity_at upload_during_request 3 = AwaitUpload second_video \<and>
   uploadVideo (ok_response sample_upload) = Inr sample_upload \<and>
   uploadedVideo (ui (step (UploadSettles 3 (ok_response sample_upload)) upload_during_request)) =
     Some second_video \<and>
   activity_at upload_during_request 2 = AwaitStatus 0 \<and>
   activity_at (step (UploadSettles 3 (ok_response sample_upload)) upload_during_request) 2 =
     AwaitStatus 0 \<and>
   displayed_progress 2 [status_with True 55 7, status_with True 60 8]
     (step (UploadSettles 3 (ok_response sample_upload)) upload_during_request) = [55, 60] \<and>
   activity_at upload_during_wait 3 = AwaitUpload second_video \<and>
   activity_at upload_during_wait 2 = AwaitTimer 1000 0 \<and>
   displayed_progress 2 [status_with True 55 7]
     (run [Elapse 1000, TimerFires 2]
        (step (UploadSettles 3 (ok_response sample_upload)) upload_during_wait)) = [55] \<and>
   status_state (ui (step (StatusSettles 2 (ok_response (status_with False 100 9)))
     (step (UploadSettles 3 (ok_response sample_upload)) upload_during_request))) =
     StatusCompleted \<and>
   getProcessingStatus server_error = Inl (ApiError 500 ''Internal Server Error'') \<and>
   status_state (ui (step (StatusSettles 2 server_error)
     (step (UploadSettles 3 (ok_response sample_upload)) upload_during_request))) = StatusError \<and>
   toasts (step (StatusSettles 2 server_error)
     (step (UploadSettles 3 (ok_response sample_upload)) upload_during_request)) =
     toasts (step (UploadSettles 3 (ok_response sample_upload)) upload_during_request) @
       [Toast Destructive ''Processing Failed'' ''Internal Server Error''] \<and>
   activity_at (step (TimerFires 2) (step (Elapse 1000)
     (step (UploadSettles 3 (ok_response sample_upload)) upload_during_wait))) 2 = AwaitStatus 0"
proof -
  let ?acc = "UploadSettles 3 (ok_response sample_upload)"
  let ?w = upload_during_request
  let ?u = upload_during_wait
  let ?v = "step ?acc ?w"
  let ?t = "step (Elapse 1000) (step ?acc ?u)"
  have a: "activity_at ?w 3 = AwaitUpload second_video"
    by (simp add: upload_during_request_def world_eval sample_eval)
  have b: "uploadVideo (ok_response sample_upload) = Inr sample_upload"
    by (simp add: uploadVideo_def ok_response_def response_ok_def)
  have c: "activity_at ?w 2 = AwaitStatus 0"
    by (simp add: upload_during_request_def world_eval sample_eval)
  have a': "activity_at ?u 3 = AwaitUpload second_video"
    by (simp add: upload_during_wait_def world_eval sample_eval)
  have c': "activity_at ?u 2 = AwaitTimer 1000 0" and clk: "clock ?u = 0"
    by (simp_all add: upload_during_wait_def world_eval sample_eval)
  have run2: "list_all is_processing [status_with True 55 7, status_with True 60 8]"
      "map progress [status_with True 55 7, status_with True 60 8] = [55, 60]"
      "list_all is_processing [status_with True 55 7]"
      "map progress [status_with True 55 7] = [55]"
      "\<not> is_processing (status_with False 100 9)"
    by (simp_all add: status_with_def)
  have err: "getProcessingStatus server_error = Inl (ApiError 500 ''Internal Server Error'')"
    by (simp add: server_error_def getProcessingStatus_def apiRequest_def response_ok_def)
  have t: "activity_at ?t 2 = AwaitTimer 1000 0" and tc: "1000 \<le> clock ?t"
    by (simp_all add: upload_during_wait_def world_eval sample_eval)
  note first = accepted_upload_leaves_poll_running
    [OF a b, where j = 2 and capturedTotal = 0 and due = 0
       and sts = "[status_with True 55 7, status_with True 60 8]"
       and v = ?v and k = 2 and n = 0 and st = "status_with False 100 9"
       and failed = server_error and e = "ApiError 500 ''Internal Server Error''"
       and expiry = 0,
     unfolded Let_def]
  from first have d: "uploadedVideo (ui ?v) = Some second_video"
    by (elim conjE)
  from first have "\<forall>j. j \<noteq> 3 \<longrightarrow> activity_at ?v j = activity_at ?w j"
    by (elim conjE)
  then have "activity_at ?v 2 = activity_at ?w 2" by simp
  then have e: "activity_at ?v 2 = AwaitStatus 0" unfolding c .
  from first have "activity_at ?w 2 = AwaitStatus 0 \<and>
      list_all is_processing [status_with True 55 7, status_with True 60 8] \<longrightarrow>
      displayed_progress 2 [status_with True 55 7, status_with True 60 8] ?v =
        map progress [status_with True 55 7, status_with True 60 8]"
    by (elim conjE)
  with c run2(1) have "displayed_progress 2 [status_with True 55 7, status_with True 60 8] ?v =
      map progress [status_with True 55 7, status_with True 60 8]"
    by blast
  then have f: "displayed_progress 2 [status_with True 55 7, status_with True 60 8] ?v = [55, 60]"
    unfolding run2(2) .
  from first have "activity_at ?v 2 = AwaitStatus 0 \<longrightarrow>
       progress_state (ui (step (StatusSettles 2 (ok_response (status_with False 100 9))) ?v)) =
         (if is_processing (status_with False 100 9) then progress (status_with False 100 9)
          else 100) \<and>
       detectedTargets (ui (step (StatusSettles 2 (ok_response (status_with False 100 9))) ?v)) =
         detections_count (status_with False 100 9) \<and>
       toasts (step (StatusSettles 2 (ok_response (status_with False 100 9))) ?v) = toasts ?v \<and>
       console (step (StatusSettles 2 (ok_response (status_with False 100 9))) ?v) = console ?v \<and>
       (is_processing (status_with False 100 9) \<longrightarrow>
          activity_at (step (StatusSettles 2 (ok_response (status_with False 100 9))) ?v) 2 =
            AwaitTimer (clock ?v + 1000) 0) \<and>
       (\<not> is_processing (status_with False 100 9) \<longrightarrow>
          status_state (ui (step (StatusSettles 2 (ok_response (status_with False 100 9))) ?v)) =
            StatusCompleted \<and>
          \<not> isProcessing (ui (step (StatusSettles 2 (ok_response (status_with False 100 9))) ?v)) \<and>
          sent (step (StatusSettles 2 (ok_response (status_with False 100 9))) ?v) =
            sent ?v @ [getDetections_request] \<and>
          activity_at (step (StatusSettles 2 (ok_response (status_with False 100 9))) ?v) 2 =
            AwaitDetections)"
    by (elim conjE)
  with e run2(5) have h: "status_state (ui (step (StatusSettles 2
      (ok_response (status_with False 100 9))) ?v)) = StatusCompleted"
    by blast
  from first have "activity_at ?v 2 = AwaitStatus 0 \<and>
       getProcessingStatus server_error = Inl (ApiError 500 ''Internal Server Error'') \<longrightarrow>
       status_state (ui (step (StatusSettles 2 server_error) ?v)) = StatusError \<and>
       \<not> isProcessing (ui (step (StatusSettles 2 server_error) ?v)) \<and>
       toasts (step (StatusSettles 2 server_error) ?v) =
         toasts ?v @
           [Toast Destructive ''Processing Failed''
              (message_or (ApiError 500 ''Internal Server Error'') ''CV processing failed'')] \<and>
       activity_at (step (StatusSettles 2 server_error) ?v) 2 = Finished"
    by (elim conjE)
  with e err have fl: "status_state (ui (step (StatusSettles 2 server_error) ?v)) = StatusError \<and>
       \<not> isProcessing (ui (step (StatusSettles 2 server_error) ?v)) \<and>
       toasts (step (StatusSettles 2 server_error) ?v) =
         toasts ?v @
           [Toast Destructive ''Processing Failed''
              (message_or (ApiError 500 ''Internal Server Error'') ''CV processing failed'')] \<and>
       activity_at (step (StatusSettles 2 server_error) ?v) 2 = Finished"
    by blast
  then have i: "status_state (ui (step (StatusSettles 2 server_error) ?v)) = StatusError"
    by (elim conjE)
  from fl have "toasts (step (StatusSettles 2 server_error) ?v) =
         toasts ?v @
           [Toast Destructive ''Processing Failed''
              (message_or (ApiError 500 ''Internal Server Error'') ''CV processing failed'')]"
    by (elim conjE)
  then have j: "toasts (step (StatusSettles 2 server_error) ?v) =
      toasts ?v @ [Toast Destructive ''Processing Failed'' ''Internal Server Error'']"
    unfolding message_or.simps .
  note second = accepted_upload_leaves_poll_running
    [OF a' b, where j = 2 and capturedTotal = 0 and due = 1000
       and sts = "[status_with True 55 7]"
       and v = ?t and k = 2 and n = 0 and st = "status_with False 100 9"
       and failed = server_error and e = "ApiError 500 ''Internal Server Error''"
       and expiry = 1000,
     unfolded Let_def clk]
  from second have "activity_at ?u 2 = AwaitTimer 1000 0 \<and>
      list_all is_processing [status_with True 55 7] \<longrightarrow>
      displayed_progress 2 [status_with True 55 7]
        (run [Elapse (1000 - 0), TimerFires 2] (step ?acc ?u)) =
        map progress [status_with True 55 7]"
    by (elim conjE)
  with c' run2(3) have "displayed_progress 2 [status_with True 55 7]
      (run [Elapse (1000 - 0), TimerFires 2] (step ?acc ?u)) = map progress [status_with True 55 7]"
    by blast
  then have g: "displayed_progress 2 [status_with True 55 7]
      (run [Elapse 1000, TimerFires 2] (step ?acc ?u)) = [55]"
    unfolding run2(4) diff_zero .
  from second have "activity_at ?t 2 = AwaitTimer 1000 0 \<and> 1000 \<le> clock ?t \<longrightarrow>
       activity_at (step (TimerFires 2) ?t) 2 = AwaitStatus 0 \<and>
       sent (step (TimerFires 2) ?t) = sent ?t @ [getProcessingStatus_request] \<and>
       ui (step (TimerFires 2) ?t) = ui ?t"
    by (elim conjE)
  with t tc have k: "activity_at (step (TimerFires 2) ?t) 2 = AwaitStatus 0"
    by blast
  show ?thesis
    by (intro conjI) (fact a b d c e f a' c' g h err i j k)+
qed

text \<open>
  Claim C1 as first stated fails.  In the sample session the second video is accepted
  while the first job is being polled: the display is reset to progress 0, yet the old
  polling activity is still waiting for its status.  When that status arrives it is shown
  (progress 55, 7 targets), and a later status that reports the end of processing marks
  the dashboard completed and sends the request for the detections of the old job.
\<close>

theorem stale_snapshot_is_still_observed:
  "uploadedVideo (ui (run (to_processing @
       [Drop [second_video], UploadSettles 3 (ok_response sample_upload)]) mounted)) =
     Some second_video \<and>
   progress_state (ui (run (to_processing @
       [Drop [second_video], UploadSettles 3 (ok_response sample_upload)]) mounted)) = 0 \<and>
   activity_at (run (to_processing @
       [Drop [second_video], UploadSettles 3 (ok_response sample_upload)]) mounted) 2 =
     AwaitStatus 0 \<and>
   progress_state (ui (run (to_processing @
       [Drop [second_video], UploadSettles 3 (ok_response sample_upload),
        StatusSettles 2 (ok_response (status_with True 55 7))]) mounted)) = 55 \<and>
   detectedTargets (ui (run (to_processing @
       [Drop [second_video], UploadSettles 3 (ok_response sample_upload),
        StatusSettles 2 (ok_response (status_with True 55 7))]) mounted)) = 7 \<and>
   status_state (ui (run (to_processing @
       [Drop [second_video], UploadSettles 3 (ok_response sample_upload),
        StatusSettles 2 (ok_response (status_with True 55 7)), Elapse 1000, TimerFires 2,
        StatusSettles 2 (ok_response (status_with False 100 9))]) mounted)) = StatusCompleted \<and>
   sent_count getDetections_request (run (to_processing @
       [Drop [second_video], UploadSettles 3 (ok_response sample_upload),
        StatusSettles 2 (ok_response (status_with True 55 7)), Elapse 1000, TimerFires 2,
        StatusSettles 2 (ok_response (status_with False 100 9))]) mounted) = 1"
  by (simp add: world_eval sample_eval)


subsection \<open>Starting a job\<close>

text \<open>
  Claim C4, as amended.  A call of \<open>handleStartProcessing\<close> with no video loaded, or with
  a video but the backend flag off, is refused with a toast (\<open>No Video Loaded\<close>,
  \<open>Backend Unavailable\<close>) and changes nothing else: no request is sent, no activity is
  started and the component state is as before.  While \<open>isProcessing\<close> is set the start
  button is disabled, so a click changes nothing and raises no error.
\<close>

theorem start_refused_without_asset_or_backend:
  "(uploadedVideo (ui w) = None \<longrightarrow>
      handleStartProcessing w =
        toast_call (Toast Destructive ''No Video Loaded'' ''Please upload a video file first.'') w) \<and>
   (uploadedVideo (ui w) \<noteq> None \<and> \<not> backendConnected (ui w) \<longrightarrow>
      handleStartProcessing w =
        toast_call (Toast Destructive ''Backend Unavailable''
          ''Cannot start processing. Backend server is not running.'') w) \<and>
   (uploadedVideo (ui w) = None \<or> \<not> backendConnected (ui w) \<longrightarrow>
      ui (handleStartProcessing w) = ui w \<and>
      sent (handleStartProcessing w) = sent w \<and>
      activities (handleStartProcessing w) = activities w \<and>
      length (toasts (handleStartProcessing w)) = Suc (length (toasts w))) \<and>
   (isProcessing (ui w) \<longrightarrow> ControlPanel_click w = w)"
  by (auto simp: handleStartProcessing_def ControlPanel_click_def toast_call_def)

text \<open>
  The theorem right after mounting (no video), in a state that holds a video with the
  backend flag off, and in the sample session once processing has been acknowledged.
\<close>

theorem start_refused_witness:
  "uploadedVideo (ui mounted) = None \<and>
   toasts (handleStartProcessing mounted) =
     [Toast Destructive ''No Video Loaded'' ''Please upload a video file first.''] \<and>
   sent (handleStartProcessing mounted) = sent mounted \<and>
   activities (handleStartProcessing mounted) = activities mounted \<and>
   uploadedVideo (ui disconnected_with_video) \<noteq> None \<and>
   \<not> backendConnected (ui disconnected_with_video) \<and>
   toasts (handleStartProcessing disconnected_with_video) =
     [Toast Destructive ''Backend Unavailable''
        ''Cannot start processing. Backend server is not running.''] \<and>
   sent (handleStartProcessing disconnected_with_video) = sent disconnected_with_video \<and>
   isProcessing (ui (run to_processing mounted)) \<and>
   ControlPanel_click (run to_processing mounted) = run to_processing mounted"
proof -
  have a: "uploadedVideo (ui mounted) = None"
    by (simp add: mounted_def initial_dashboard_def)
  have b: "uploadedVideo (ui disconnected_with_video) \<noteq> None"
      "\<not> backendConnected (ui disconnected_with_video)"
    by (simp_all add: disconnected_with_video_def mounted_def initial_dashboard_def)
  have c: "isProcessing (ui (run to_processing mounted))"
    by (simp add: world_eval sample_eval)
  note m = start_refused_without_asset_or_backend[of mounted]
  note d = start_refused_without_asset_or_backend[of disconnected_with_video]
  note p = start_refused_without_asset_or_backend[of "run to_processing mounted"]
  have m1: "handleStartProcessing mounted =
      toast_call (Toast Destructive ''No Video Loaded'' ''Please upload a video file first.'') mounted"
    using m a by blast
  have m2: "sent (handleStartProcessing mounted) = sent mounted"
      "activities (handleStartProcessing mounted) = activities mounted"
    using m a by blast+
  have m3: "toasts (handleStartProcessing mounted) =
     [Toast Destructive ''No Video Loaded'' ''Please upload a video file first.'']"
    unfolding m1 by (simp add: toast_call_def mounted_def)
  have d1: "handleStartProcessing disconnected_with_video =
      toast_call (Toast Destructive ''Backend Unavailable''
          ''Cannot start processing. Backend server is not running.'') disconnected_with_video"
    using d b by blast
  have d2: "sent (handleStartProcessing disconnected_with_video) = sent disconnected_with_video"
    using d b by blast
  have d3: "toasts (handleStartProcessing disconnected_with_video) =
     [Toast Destructive ''Backend Unavailable''
        ''Cannot start processing. Backend server is not running.'']"
    unfolding d1 by (simp add: toast_call_def disconnected_with_video_def mounted_def)
  have p1: "ControlPanel_click (run to_processing mounted) = run to_processing mounted"
    using p c by blast
  from a b c m2 m3 d2 d3 p1 show ?thesis by blast
qed

text \<open>
  Claim C4 as first stated fails.  In the sample session with a video loaded and the
  backend connected, two clicks on the start button before the first acknowledgement
  are both accepted: two start requests are sent, no toast refuses the second, and once
  both are acknowledged two polling activities run side by side.  A click made after the
  acknowledgement, on the disabled button, is dropped without any toast.
\<close>

theorem second_start_before_ack_is_accepted:
  "sent_count startProcessing_request (run (to_ready @ [ClickStart, ClickStart]) mounted) = 2 \<and>
   toasts (run (to_ready @ [ClickStart, ClickStart]) mounted) = toasts (run to_ready mounted) \<and>
   activities (run (to_ready @ [ClickStart, ClickStart]) mounted) =
     [Finished, Finished, AwaitStart 0, AwaitStart 0] \<and>
   activities (run (to_ready @ [ClickStart, ClickStart, StartSettles 2 (ok_response sample_start),
        StartSettles 3 (ok_response sample_start)]) mounted) =
     [Finished, Finished, AwaitStatus 0, AwaitStatus 0] \<and>
   sent_count getProcessingStatus_request
     (run (to_ready @ [ClickStart, ClickStart, StartSettles 2 (ok_response sample_start),
        StartSettles 3 (ok_response sample_start)]) mounted) = 2 \<and>
   toasts (run (to_processing @ [ClickStart]) mounted) = toasts (run to_processing mounted)"
  by (simp add: world_eval sample_eval)

subsection \<open>Displayed progress\<close>

text \<open>
  Claim C5, as amended.  Within one job the progress on display after each running
  status is exactly the progress that status reports; no clamp is applied.  The displayed
  progress therefore never decreases as long as the reported progress never decreases.
  A status that reports the end of processing puts 100 on display.
\<close>

theorem displayed_progress_is_reported_progress:
  assumes "activity_at w i = AwaitStatus capturedTotal"
  shows "(list_all is_processing sts \<longrightarrow>
            displayed_progress i sts w = map progress sts \<and>
            (sorted (map progress sts) \<longrightarrow> sorted (displayed_progress i sts w))) \<and>
         (\<not> is_processing st \<longrightarrow>
            progress_state (ui (step (StatusSettles i (ok_response st)) w)) = 100)"
proof (intro conjI impI)
  assume "list_all is_processing sts"
  then show eq: "displayed_progress i sts w = map progress sts"
    using assms displayed_progress_ongoing by blast
  assume "sorted (map progress sts)"
  with eq show "sorted (displayed_progress i sts w)" by simp
next
  assume "\<not> is_processing st"
  then show "progress_state (ui (step (StatusSettles i (ok_response st)) w)) = 100"
    using assms by (simp add: poll_settles_ok set_activity_def send_def)
qed

text \<open>The theorem on the sample session, for reports of 10 and then 55 percent.\<close>

theorem displayed_progress_witness:
  "activity_at (run to_processing mounted) 2 = AwaitStatus 0 \<and>
   list_all is_processing [status_with True 10 0, status_with True 55 3] \<and>
   displayed_progress 2 [status_with True 10 0, status_with True 55 3] (run to_processing mounted) =
     [10, 55] \<and>
   sorted (displayed_progress 2 [status_with True 10 0, status_with True 55 3]
     (run to_processing mounted)) \<and>
   progress_state (ui (step (StatusSettles 2 (ok_response (status_with False 97 3)))
     (run to_processing mounted))) = 100"
proof -
  have a: "activity_at (run to_processing mounted) 2 = AwaitStatus 0"
    by (simp add: world_eval sample_eval)
  have b: "list_all is_processing [status_with True 10 0, status_with True 55 3]"
    by (simp add: status_with_def)
  have c: "map progress [status_with True 10 0, status_with True 55 3] = [10, 55]"
    by (simp add: status_with_def)
  have d: "\<not> is_processing (status_with False 97 3)"
    by (simp add: status_with_def)
  note th = displayed_progress_is_reported_progress
    [OF a, of "[status_with True 10 0, status_with True 55 3]" "status_with False 97 3"]
  from th b have e: "displayed_progress 2 [status_with True 10 0, status_with True 55 3]
      (run to_processing mounted) = map progress [status_with True 10 0, status_with True 55 3]"
    by blast
  have f: "sorted (map progress [status_with True 10 0, status_with True 55 3])"
    unfolding c by simp
  from th b f have g: "sorted (displayed_progress 2 [status_with True 10 0, status_with True 55 3]
     (run to_processing mounted))"
    by blast
  from th d have h: "progress_state (ui (step (StatusSettles 2 (ok_response (status_with False 97 3)))
     (run to_processing mounted))) = 100"
    by blast
  from a b e[unfolded c] g h show ?thesis by blast
qed

text \<open>
  Claim C5 as first stated fails.  In the sample session the backend reports 55 percent
  and then 10 percent for the same job: the display shows 55 and then 10.
\<close>

theorem displayed_progress_regresses:
  "displayed_progress 2 [status_with True 55 3, status_with True 10 3] (run to_processing mounted) =
     [55, 10]"
  by (simp add: world_eval sample_eval Let_def)


subsection \<open>Rounding to double precision\<close>

text \<open>
  Rounding never steps over a double: a value at most (at least) a given double is
  rounded to at most (at least) that double.  Hence doubles are rounded to themselves.
\<close>

lemma half_even_ge: "of_int z \<le> q \<Longrightarrow> z \<le> half_even q"
proof -
  assume "of_int z \<le> q"
  then have "z \<le> \<lfloor>q\<rfloor>" by (simp add: le_floor_iff)
  then show ?thesis by (simp add: half_even_def Let_def)
qed

lemma half_even_le: "q \<le> of_int z \<Longrightarrow> half_even q \<le> z"
proof (cases "q = of_int \<lfloor>q\<rfloor>")
  case True
  assume "q \<le> of_int z"
  with True have "\<lfloor>q\<rfloor> \<le> z" by (metis floor_of_int floor_mono)
  moreover from True have "q - of_int \<lfloor>q\<rfloor> = 0" by simp
  ultimately show ?thesis by (simp add: half_even_def Let_def)
next
  case False
  assume qz: "q \<le> of_int z"
  have "of_int \<lfloor>q\<rfloor> < q" using False of_int_floor_le[of q] by linarith
  with qz have "of_int \<lfloor>q\<rfloor> < (of_int z :: rat)" by linarith
  then have "\<lfloor>q\<rfloor> < z" by simp
  then have "\<lfloor>q\<rfloor> + 1 \<le> z" by simp
  then show ?thesis by (simp add: half_even_def Let_def)
qed

lemma half_even_of_int: "half_even (of_int z) = z"
  by (simp add: half_even_def)

lemma shift_for_spec:
  "(shift_for n = 0 \<and> n < 2 ^ precision) \<or>
   (0 < shift_for n \<and> 2 ^ (precision + shift_for n) \<le> 2 * n \<and> n < 2 ^ (precision + shift_for n))"
proof (induction n rule: shift_for.induct)
  case (1 n)
  show ?case
  proof (cases "n < 2 ^ precision")
    case True
    then show ?thesis by (simp add: shift_for.simps[of n])
  next
    case False
    then have s: "shift_for n = Suc (shift_for (n div 2))" by (simp add: shift_for.simps[of n])
    from False have big: "2 ^ precision \<le> n" by simp
    from 1[OF False] show ?thesis
    proof
      assume a: "shift_for (n div 2) = 0 \<and> n div 2 < 2 ^ precision"
      then have "n < 2 * 2 ^ precision" by linarith
      with big a s show ?thesis by simp
    next
      assume a: "0 < shift_for (n div 2) \<and>
        2 ^ (precision + shift_for (n div 2)) \<le> 2 * (n div 2) \<and>
        n div 2 < 2 ^ (precision + shift_for (n div 2))"
      then have "2 ^ (precision + shift_for (n div 2)) \<le> n"
        and "n < 2 * 2 ^ (precision + shift_for (n div 2))" by linarith+
      with s show ?thesis by simp
    qed
  qed
qed

lemma shift_for_unique:
  assumes "(j = 0 \<and> n < 2 ^ precision) \<or>
           (0 < j \<and> 2 ^ (precision + j) \<le> 2 * n \<and> n < 2 ^ (precision + j))"
  shows "shift_for n = j"
proof (rule ccontr)
  assume ne: "shift_for n \<noteq> j"
  let ?k = "shift_for n"
  have lowj: "0 < j \<Longrightarrow> 2 ^ (precision + j) \<le> 2 * n" and upj: "n < 2 ^ (precision + j)"
    using assms by auto
  have lowk: "0 < ?k \<Longrightarrow> 2 ^ (precision + ?k) \<le> 2 * n" and upk: "n < 2 ^ (precision + ?k)"
    using shift_for_spec[of n] by auto
  from ne consider "?k < j" | "j < ?k" by linarith
  then show False
  proof cases
    case 1
    then have "Suc (precision + ?k) \<le> precision + j" by simp
    then have "(2::nat) ^ Suc (precision + ?k) \<le> 2 ^ (precision + j)"
      by (rule power_increasing) simp
    with lowj 1 upk show False by simp
  next
    case 2
    then have "Suc (precision + j) \<le> precision + ?k" by simp
    then have "(2::nat) ^ Suc (precision + j) \<le> 2 ^ (precision + ?k)"
      by (rule power_increasing) simp
    with lowk 2 upj show False by simp
  qed
qed

lemma round_scaled_le:
  assumes x: "0 \<le> x" and m: "m < 2 ^ precision" and le: "x \<le> of_nat (m * 2 ^ i)"
  shows "round_scaled x \<le> m * 2 ^ i"
proof -
  let ?n = "nat \<lfloor>x\<rfloor>"
  let ?j = "shift_for ?n"
  have nx: "of_nat ?n \<le> x" using x by simp
  have ij: "?j \<le> i"
  proof (rule ccontr)
    assume "\<not> ?j \<le> i"
    then have lt: "i < ?j" by simp
    then have "0 < ?j" by simp
    with shift_for_spec[of ?n] have low: "2 ^ (precision + ?j) \<le> 2 * ?n" by auto
    have "m * 2 ^ i < 2 ^ precision * 2 ^ i" using m by simp
    also have "\<dots> = 2 ^ (precision + i)" by (simp add: power_add)
    finally have up: "2 * (m * 2 ^ i) < 2 ^ Suc (precision + i)" by simp
    from lt have "Suc (precision + i) \<le> precision + ?j" by simp
    then have "(2::nat) ^ Suc (precision + i) \<le> 2 ^ (precision + ?j)"
      by (rule power_increasing) simp
    with up low have "m * 2 ^ i < ?n" by linarith
    then have "(of_nat (m * 2 ^ i) :: rat) < of_nat ?n" by (simp only: of_nat_less_iff)
    with nx le show False by linarith
  qed
  then obtain d where d: "i = ?j + d" using le_Suc_ex by blast
  have "x / 2 ^ ?j \<le> of_int (int (m * 2 ^ d))"
  proof -
    have "x \<le> of_nat (m * 2 ^ d) * 2 ^ ?j" using le by (simp add: d power_add mult.assoc mult.commute)
    then have "x / 2 ^ ?j \<le> of_nat (m * 2 ^ d)" by (simp add: pos_divide_le_eq)
    then show ?thesis by simp
  qed
  then have "half_even (x / 2 ^ ?j) \<le> int (m * 2 ^ d)" by (rule half_even_le)
  then have "nat (half_even (x / 2 ^ ?j)) \<le> nat (int (m * 2 ^ d))" by (rule nat_mono)
  then have "nat (half_even (x / 2 ^ ?j)) \<le> m * 2 ^ d" by (simp only: nat_int)
  then have "nat (half_even (x / 2 ^ ?j)) * 2 ^ ?j \<le> (m * 2 ^ d) * 2 ^ ?j" by simp
  then show ?thesis by (simp add: round_scaled_def Let_def d power_add mult.assoc mult.commute)
qed


lemma round_scaled_ge:
  assumes x: "0 \<le> x" and m: "m < 2 ^ precision" and ge: "of_nat (m * 2 ^ i) \<le> x"
  shows "m * 2 ^ i \<le> round_scaled x"
proof -
  let ?n = "nat \<lfloor>x\<rfloor>"
  let ?j = "shift_for ?n"
  let ?h = "half_even (x / 2 ^ ?j)"
  have nx: "of_nat ?n \<le> x" using x by simp
  show ?thesis
  proof (cases "?j \<le> i")
    case True
    then obtain d where d: "i = ?j + d" using le_Suc_ex by blast
    have "of_int (int (m * 2 ^ d)) \<le> x / 2 ^ ?j"
    proof -
      have "of_nat (m * 2 ^ d) * 2 ^ ?j \<le> x" using ge by (simp add: d power_add mult.assoc mult.commute)
      then have "of_nat (m * 2 ^ d) \<le> x / 2 ^ ?j" by (simp add: pos_le_divide_eq)
      then show ?thesis by simp
    qed
    then have "int (m * 2 ^ d) \<le> ?h" by (rule half_even_ge)
    then have "nat (int (m * 2 ^ d)) \<le> nat ?h" by (rule nat_mono)
    then have "m * 2 ^ d \<le> nat ?h" by (simp only: nat_int)
    then have "(m * 2 ^ d) * 2 ^ ?j \<le> nat ?h * 2 ^ ?j" by simp
    then show ?thesis by (simp add: round_scaled_def Let_def d power_add mult.assoc mult.commute)
  next
    case False
    then have lt: "i < ?j" by simp
    then have "0 < ?j" by simp
    with shift_for_spec[of ?n] have low: "2 ^ (precision + ?j) \<le> 2 * ?n" by auto
    have pj: "(2::nat) ^ (precision + ?j) = 2 * (2 ^ (precision - 1) * 2 ^ ?j)"
      by (simp add: precision_def power_add)
    from low pj have "2 ^ (precision - 1) * 2 ^ ?j \<le> ?n" by linarith
    then have "(of_nat (2 ^ (precision - 1) * 2 ^ ?j) :: rat) \<le> of_nat ?n"
      by (simp only: of_nat_le_iff)
    with nx have "(of_nat (2 ^ (precision - 1) * 2 ^ ?j) :: rat) \<le> x" by linarith
    then have "of_nat (2 ^ (precision - 1)) * 2 ^ ?j \<le> x" by simp
    then have "of_nat (2 ^ (precision - 1)) \<le> x / 2 ^ ?j" by (simp add: pos_le_divide_eq)
    then have "of_int (int (2 ^ (precision - 1))) \<le> x / 2 ^ ?j" by simp
    then have "int (2 ^ (precision - 1)) \<le> ?h" by (rule half_even_ge)
    then have "nat (int (2 ^ (precision - 1))) \<le> nat ?h" by (rule nat_mono)
    then have "2 ^ (precision - 1) \<le> nat ?h" by (simp only: nat_int)
    then have big: "2 ^ (precision - 1) * 2 ^ ?j \<le> nat ?h * 2 ^ ?j" by simp
    have "m * 2 ^ i < 2 ^ precision * 2 ^ i" using m by simp
    also have "\<dots> = 2 ^ (precision + i)" by (simp add: power_add)
    also have "\<dots> \<le> 2 ^ (precision - 1 + ?j)"
      using lt by (intro power_increasing) (simp_all add: precision_def)
    also have "\<dots> = 2 ^ (precision - 1) * 2 ^ ?j" by (simp add: power_add)
    finally have "m * 2 ^ i < 2 ^ (precision - 1) * 2 ^ ?j" .
    with big have "m * 2 ^ i \<le> nat ?h * 2 ^ ?j" by linarith
    then show ?thesis unfolding round_scaled_def Let_def .
  qed
qed

lemma round_scaled_exact:
  assumes "m < 2 ^ precision"
  shows "round_scaled (of_nat (m * 2 ^ i)) = m * 2 ^ i"
proof (rule antisym)
  show "round_scaled (of_nat (m * 2 ^ i)) \<le> m * 2 ^ i"
    using assms by (intro round_scaled_le) simp_all
  show "m * 2 ^ i \<le> round_scaled (of_nat (m * 2 ^ i))"
    using assms by (intro round_scaled_ge) simp_all
qed

lemma round_scaled_at:
  assumes x: "0 \<le> x"
    and j: "(j = 0 \<and> x < 2 ^ precision) \<or> (0 < j \<and> 2 ^ (precision + j) \<le> 2 * x \<and> x < 2 ^ (precision + j))"
  shows "round_scaled x = nat (half_even (x / 2 ^ j)) * 2 ^ j"
proof -
  let ?n = "nat \<lfloor>x\<rfloor>"
  have up: "x < 2 ^ (precision + j) \<Longrightarrow> ?n < 2 ^ (precision + j)"
  proof -
    assume "x < 2 ^ (precision + j)"
    then have "x < of_int (2 ^ (precision + j))" by simp
    then have "\<lfloor>x\<rfloor> < 2 ^ (precision + j)" by (simp only: floor_less_iff)
    then show ?thesis using x by (simp add: nat_less_iff)
  qed
  have low: "0 < j \<Longrightarrow> 2 ^ (precision + j) \<le> 2 * x \<Longrightarrow> 2 ^ (precision + j) \<le> 2 * ?n"
  proof -
    assume pos: "0 < j" and "2 ^ (precision + j) \<le> 2 * x"
    then obtain k where k: "j = Suc k" by (cases j) simp_all
    from \<open>2 ^ (precision + j) \<le> 2 * x\<close> have "of_int (2 ^ (precision + k)) \<le> x" by (simp add: k)
    then have "2 ^ (precision + k) \<le> \<lfloor>x\<rfloor>" by (simp only: le_floor_iff)
    then have "2 ^ (precision + k) \<le> ?n" by (simp add: le_nat_iff)
    then show ?thesis by (simp add: k)
  qed
  have "shift_for ?n = j"
  proof (rule shift_for_unique)
    from j show "(j = 0 \<and> ?n < 2 ^ precision) \<or>
           (0 < j \<and> 2 ^ (precision + j) \<le> 2 * ?n \<and> ?n < 2 ^ (precision + j))"
    proof
      assume "j = 0 \<and> x < 2 ^ precision"
      then show ?thesis using up by simp
    next
      assume "0 < j \<and> 2 ^ (precision + j) \<le> 2 * x \<and> x < 2 ^ (precision + j)"
      then show ?thesis using up low by simp
    qed
  qed
  then show ?thesis by (simp add: round_scaled_def Let_def)
qed


lemma round_magnitude_bounded:
  assumes r: "0 \<le> r" and le: "r \<le> of_nat N" and N: "N < 2 ^ precision"
  shows "\<exists>v. round_magnitude r = Some v \<and> 0 \<le> v \<and> v \<le> of_nat N"
proof -
  let ?n = "round_scaled (r * 2 ^ unit_bits)"
  have "r * 2 ^ unit_bits \<le> of_nat N * 2 ^ unit_bits" using le by simp
  then have "r * 2 ^ unit_bits \<le> of_nat (N * 2 ^ unit_bits)" by simp
  with r N have n: "?n \<le> N * 2 ^ unit_bits" by (intro round_scaled_le) simp_all
  have "N * 2 ^ unit_bits < 2 ^ precision * 2 ^ unit_bits" using N by simp
  also have "\<dots> = 2 ^ (precision + unit_bits)" by (simp add: power_add)
  also have "\<dots> \<le> 2 ^ (range_bits + unit_bits)"
    by (intro power_increasing) (simp_all add: precision_def range_bits_def)
  finally have "N * 2 ^ unit_bits < 2 ^ (range_bits + unit_bits)" .
  with n have fin: "\<not> 2 ^ (range_bits + unit_bits) \<le> ?n" by linarith
  have "(of_nat ?n :: rat) \<le> of_nat (N * 2 ^ unit_bits)" using n by (simp only: of_nat_le_iff)
  then have "(of_nat ?n :: rat) \<le> of_nat N * 2 ^ unit_bits" by simp
  then have "(of_nat ?n :: rat) / 2 ^ unit_bits \<le> of_nat N" by (simp add: pos_divide_le_eq)
  with fin show ?thesis by (simp add: round_magnitude_def Let_def)
qed

lemma round_magnitude_exact:
  assumes N: "N < 2 ^ precision"
  shows "round_magnitude (of_nat N) = Some (of_nat N)"
proof -
  have "round_scaled (of_nat N * 2 ^ unit_bits) = round_scaled (of_nat (N * 2 ^ unit_bits))" by simp
  also have "\<dots> = N * 2 ^ unit_bits" using N by (rule round_scaled_exact)
  finally have n: "round_scaled (of_nat N * 2 ^ unit_bits) = N * 2 ^ unit_bits" .
  have "N * 2 ^ unit_bits < 2 ^ precision * 2 ^ unit_bits" using N by simp
  also have "\<dots> = 2 ^ (precision + unit_bits)" by (simp add: power_add)
  also have "\<dots> \<le> 2 ^ (range_bits + unit_bits)"
    by (intro power_increasing) (simp_all add: precision_def range_bits_def)
  finally have fin: "\<not> 2 ^ (range_bits + unit_bits) \<le> N * 2 ^ unit_bits" by simp
  show ?thesis using fin by (simp add: round_magnitude_def Let_def n)
qed

lemma round_magnitude_at:
  assumes d: "d < unit_bits"
    and low: "2 ^ precision \<le> 2 * (r * 2 ^ d)"
    and up: "r * 2 ^ d < 2 ^ precision"
  shows "round_magnitude r = Some (of_int (half_even (r * 2 ^ d)) / 2 ^ d)"
    and "0 < half_even (r * 2 ^ d)"
proof -
  let ?j = "unit_bits - d"
  let ?x = "r * 2 ^ unit_bits"
  let ?h = "half_even (r * 2 ^ d)"
  have j: "0 < ?j" and u: "unit_bits = ?j + d" using d by simp_all
  have split: "(2::rat) ^ unit_bits = 2 ^ ?j * 2 ^ d" by (subst u) (simp only: power_add)
  then have x: "?x = (r * 2 ^ d) * 2 ^ ?j" by simp
  have r0: "0 \<le> r * 2 ^ d"
  proof -
    have "(0::rat) \<le> 2 ^ precision" by simp
    with low show ?thesis by linarith
  qed
  then have x0: "0 \<le> ?x" unfolding x by simp
  have l: "2 ^ (precision + ?j) \<le> 2 * ?x"
  proof -
    have "2 ^ precision * 2 ^ ?j \<le> (2 * (r * 2 ^ d)) * (2::rat) ^ ?j"
      using low by (intro mult_right_mono) simp_all
    then show ?thesis unfolding x by (simp add: power_add mult.assoc)
  qed
  have h: "?x < 2 ^ (precision + ?j)"
  proof -
    have "(r * 2 ^ d) * (2::rat) ^ ?j < 2 ^ precision * 2 ^ ?j"
      using up by (intro mult_strict_right_mono) simp_all
    then show ?thesis unfolding x by (simp add: power_add)
  qed
  have q: "?x / 2 ^ ?j = r * 2 ^ d" unfolding x by simp
  have rs: "round_scaled ?x = nat ?h * 2 ^ ?j"
    using round_scaled_at[OF x0, of ?j] j l h by (simp add: q)
  have "of_int (2 ^ (precision - 1)) \<le> r * 2 ^ d"
  proof -
    have "(2::rat) ^ precision = 2 * 2 ^ (precision - 1)" by (simp add: precision_def)
    with low show ?thesis by simp
  qed
  then have hlow: "2 ^ (precision - 1) \<le> ?h" by (rule half_even_ge)
  then show hpos: "0 < ?h"
    by (smt (verit) zero_less_power)
  have "r * 2 ^ d \<le> of_int (2 ^ precision)" using up by simp
  then have hup: "?h \<le> 2 ^ precision" by (rule half_even_le)
  then have "nat ?h \<le> 2 ^ precision" by (simp add: nat_le_iff)
  then have "nat ?h * 2 ^ ?j \<le> 2 ^ precision * 2 ^ ?j" by simp
  also have "\<dots> = 2 ^ (precision + ?j)" by (simp add: power_add)
  also have "\<dots> < 2 ^ (range_bits + unit_bits)"
    by (intro power_strict_increasing) (simp_all add: precision_def range_bits_def)
  finally have fin: "\<not> 2 ^ (range_bits + unit_bits) \<le> nat ?h * 2 ^ ?j" by simp
  have val: "(of_nat (nat ?h * 2 ^ ?j) :: rat) / 2 ^ unit_bits = of_int ?h / 2 ^ d"
  proof -
    have "(of_nat (nat ?h * 2 ^ ?j) :: rat) = of_int ?h * 2 ^ ?j" using hpos by simp
    then show ?thesis unfolding split by simp
  qed
  have "round_magnitude r = Some (of_nat (nat ?h * 2 ^ ?j) / 2 ^ unit_bits)"
    using fin by (simp add: round_magnitude_def Let_def rs)
  then show "round_magnitude r = Some (of_int ?h / 2 ^ d)"
    by (simp only: val)
qed

lemma floor_rat_numeral_div: "\<lfloor>numeral a / numeral b :: rat\<rfloor> = numeral a div numeral b"
  by (metis floor_divide_of_int_eq of_int_numeral)

lemma to_double_nat: "N < 2 ^ precision \<Longrightarrow> to_double (of_nat N) = Num (of_nat N)"
  by (simp add: to_double_def round_signed_def round_magnitude_exact)

lemma to_double_100: "to_double 100 = Num 100"
  using to_double_nat[of 100] by (simp add: precision_def)

lemma to_double_frames:
  assumes "0 < frames" "frames < 2 ^ precision"
  shows "to_double (of_int frames) = Num (of_int frames)"
proof -
  have "nat frames < 2 ^ precision" using assms by (simp add: nat_less_iff)
  then have "to_double (of_nat (nat frames)) = Num (of_nat (nat frames))" by (rule to_double_nat)
  moreover have "(of_nat (nat frames) :: rat) = of_int frames" using assms(1) by simp
  ultimately show ?thesis by simp
qed

lemma round_signed_bounded:
  assumes "0 \<le> r" "r \<le> of_nat N" "N < 2 ^ precision"
  shows "\<exists>v. round_signed False r = Num v \<and> 0 \<le> v \<and> v \<le> of_nat N"
proof -
  from round_magnitude_bounded[OF assms] obtain v
    where "round_magnitude r = Some v" "0 \<le> v" "v \<le> of_nat N" by blast
  then show ?thesis by (auto simp: round_signed_def signed_zero_def)
qed

lemma estimate_in_range:
  assumes T: "0 < frames" "frames < 2 ^ precision" and p: "0 \<le> p" "p \<le> 100"
  shows "\<exists>k. estimateFrame p frames = Some (Num (of_int k)) \<and> 0 \<le> k \<and> k \<le> frames"
proof -
  have P100: "(100::nat) < 2 ^ precision" "(1::nat) < 2 ^ precision" by (simp_all add: precision_def)
  obtain a where a: "to_double p = Num a" "0 \<le> a" "a \<le> 100"
  proof (cases "p = 0")
    case True
    then show ?thesis using that[of 0] by (simp add: to_double_def)
  next
    case False
    from round_signed_bounded[of p 100] p P100(1)
    obtain v where "round_signed False p = Num v" "0 \<le> v" "v \<le> 100" by auto
    with False p(1) show ?thesis using that[of v] by (simp add: to_double_def)
  qed
  obtain y where y: "double_div (Num a) (Num 100) = Num y" "0 \<le> y" "y \<le> 1"
  proof (cases "a = 0")
    case True
    then show ?thesis using that[of 0] by (simp add: double_div_def signed_zero_def)
  next
    case False
    from round_signed_bounded[of "a / 100" 1] a P100(2)
    obtain v where "round_signed False (a / 100) = Num v" "0 \<le> v" "v \<le> 1" by auto
    with False a(2) show ?thesis using that[of v] by (simp add: double_div_def)
  qed
  have Tn: "nat frames < 2 ^ precision" using T by (simp add: nat_less_iff)
  have Tr: "(of_nat (nat frames) :: rat) = of_int frames" using T(1) by simp
  have T0: "(0::rat) < of_int frames" using T(1) by simp
  obtain z where z: "double_mul (Num y) (Num (of_int frames)) = Num z" "0 \<le> z" "z \<le> of_int frames"
  proof (cases "y = 0")
    case True
    then show ?thesis using that[of 0] T0 by (simp add: double_mul_def signed_zero_def)
  next
    case False
    have "y * of_int frames \<le> 1 * of_int frames" using y(3) T0 by (intro mult_right_mono) simp_all
    then have "y * of_int frames \<le> of_nat (nat frames)" by (simp add: Tr)
    moreover have "0 \<le> y * of_int frames" using y(2) T0 by simp
    ultimately obtain v where "round_signed False (y * of_int frames) = Num v" "0 \<le> v"
        "v \<le> of_nat (nat frames)"
      using round_signed_bounded[of "y * of_int frames" "nat frames"] Tn by auto
    with False y(2) T0 show ?thesis using that[of v] by (simp add: double_mul_def Tr)
  qed
  have "estimateFrame p frames = Some (Num (of_int \<lfloor>z\<rfloor>))"
    using T(1) by (simp add: estimateFrame_def a(1) to_double_100 to_double_frames[OF T] y(1) z(1))
  moreover have "0 \<le> \<lfloor>z\<rfloor>" using z(2) by simp
  moreover have "\<lfloor>z\<rfloor> \<le> frames" using z(3) by (simp add: floor_le_iff)
  ultimately show ?thesis by blast
qed

lemma estimateFrame_at:
  assumes T: "0 < frames" "frames < 2 ^ precision"
    and a: "round_magnitude \<bar>p\<bar> = Some a" "a \<noteq> 0"
    and y: "round_magnitude (a / 100) = Some y" "y \<noteq> 0"
    and z: "round_magnitude (y * of_int frames) = Some z" "z \<noteq> 0"
    and pos: "0 \<le> a" "0 \<le> y"
  shows "estimateFrame p frames = Some (Num (of_int \<lfloor>if p < 0 then - z else z\<rfloor>))"
proof -
  have p0: "p \<noteq> 0"
  proof
    assume "p = 0"
    then have "round_magnitude \<bar>p\<bar> = round_magnitude (of_nat 0)" by simp
    also have "\<dots> = Some (of_nat 0)" by (rule round_magnitude_exact) simp
    finally show False using a by simp
  qed
  have T0: "(0::rat) < of_int frames" using T(1) by simp
  have A: "to_double p = Num (if p < 0 then - a else a)"
    using p0 a by (simp add: to_double_def round_signed_def)
  have a0: "0 < a" using a(2) pos(1) by simp
  have y0: "0 < y" using y(2) pos(2) by simp
  have Y: "double_div (Num (if p < 0 then - a else a)) (Num 100) = Num (if p < 0 then - y else y)"
    using a0 y by (simp add: double_div_def round_signed_def)
  have Z: "double_mul (Num (if p < 0 then - y else y)) (Num (of_int frames)) =
      Num (if p < 0 then - z else z)"
    using y0 T0 z by (simp add: double_mul_def round_signed_def)
  show ?thesis
    using T(1) by (simp add: estimateFrame_def A to_double_100 to_double_frames[OF T] Y Z)
qed

lemmas double_eval = unit_bits_def precision_def half_even_def Let_def floor_rat_numeral_div

subsection \<open>The frame estimate\<close>

text \<open>
  Claim C6, as amended.  For a positive frame total the estimate is \<open>Math.floor\<close> of
  \<open>(progressPercent / 100) * totalFrames\<close> as computed in double precision, the quotient
  and the product each rounded to the nearest double; it can therefore lie below the
  floor of the exact product (57 percent of 100 frames gives 56).  For a total below
  \<open>2 ^ 53\<close> it lies between 0 and the total whenever the progress lies between 0 and 100,
  and it is not clamped otherwise.  For a total of 0 (or below) no estimate is made and
  the callback leaves the current frame as it is.  The estimate for 50 percent of 8450
  frames is 4225, and for 100 percent it is 8450.
\<close>

theorem estimateFrame_is_floor_in_doubles:
  "(0 < frames \<longrightarrow>
      estimateFrame p frames =
        Some (double_floor
          (double_mul (double_div (to_double p) (to_double 100)) (to_double (of_int frames))))) \<and>
   (0 < frames \<and> frames < 2 ^ 53 \<and> 0 \<le> p \<and> p \<le> 100 \<longrightarrow>
      (\<exists>k. estimateFrame p frames = Some (Num (of_int k)) \<and> 0 \<le> k \<and> k \<le> frames)) \<and>
   (frames \<le> 0 \<longrightarrow>
      estimateFrame p frames = None \<and>
      currentFrame (fst (onProgress_callback frames st d)) = currentFrame d) \<and>
   estimateFrame 50 8450 = Some (Num 4225) \<and>
   estimateFrame 100 8450 = Some (Num 8450) \<and>
   estimateFrame 57 100 = Some (Num 56)"
proof (intro conjI impI)
  assume "0 < frames"
  then show "estimateFrame p frames =
      Some (double_floor
        (double_mul (double_div (to_double p) (to_double 100)) (to_double (of_int frames))))"
    by (simp add: estimateFrame_def)
next
  assume a: "0 < frames \<and> frames < 2 ^ 53 \<and> 0 \<le> p \<and> p \<le> 100"
  then have "frames < 2 ^ precision" by (simp add: precision_def)
  with a show "\<exists>k. estimateFrame p frames = Some (Num (of_int k)) \<and> 0 \<le> k \<and> k \<le> frames"
    by (intro estimate_in_range) simp_all
next
  assume "frames \<le> 0"
  then show "estimateFrame p frames = None" by (simp add: estimateFrame_def)
next
  assume "frames \<le> 0"
  then show "currentFrame (fst (onProgress_callback frames st d)) = currentFrame d"
    by (simp add: onProgress_callback_def estimateFrame_def)
next
  have a: "round_magnitude \<bar>50\<bar> = Some 50"
    using round_magnitude_exact[of 50] by (simp add: precision_def)
  have y: "round_magnitude (50 / 100) = Some (1 / 2)"
    using round_magnitude_at(1)[of 53 "50 / 100"] by (simp add: double_eval)
  have z: "round_magnitude (1 / 2 * of_int 8450) = Some 4225"
    using round_magnitude_at(1)[of 40 "1 / 2 * 8450"] by (simp add: double_eval)
  from estimateFrame_at[of 8450 50, OF _ _ a _ y _ z]
  show "estimateFrame 50 8450 = Some (Num 4225)" by (simp add: precision_def)
next
  have a: "round_magnitude \<bar>100\<bar> = Some 100"
    using round_magnitude_exact[of 100] by (simp add: precision_def)
  have y: "round_magnitude (100 / 100) = Some 1"
    using round_magnitude_exact[of 1] by (simp add: precision_def)
  have z: "round_magnitude (1 * of_int 8450) = Some 8450"
    using round_magnitude_exact[of 8450] by (simp add: precision_def)
  from estimateFrame_at[of 8450 100, OF _ _ a _ y _ z]
  show "estimateFrame 100 8450 = Some (Num 8450)" by (simp add: precision_def)
next
  have a: "round_magnitude \<bar>57\<bar> = Some 57"
    using round_magnitude_exact[of 57] by (simp add: precision_def)
  have y: "round_magnitude (57 / 100) = Some (5134103575202365 / 9007199254740992)"
    using round_magnitude_at(1)[of 53 "57 / 100"] by (simp add: double_eval)
  have z: "round_magnitude (5134103575202365 / 9007199254740992 * of_int 100) =
      Some (8022036836253695 / 140737488355328)"
    using round_magnitude_at(1)[of 47 "5134103575202365 / 9007199254740992 * 100"]
    by (simp add: double_eval)
  from estimateFrame_at[of 100 57, OF _ _ a _ y _ z]
  show "estimateFrame 57 100 = Some (Num 56)"
    by (simp add: precision_def floor_rat_numeral_div)
qed

text \<open>
  The theorem at 25 percent of 8450 frames, where the exact product 2112.5 is a double,
  and at a total of 0 on a fresh dashboard.
\<close>

theorem estimateFrame_witness:
  "estimateFrame 25 8450 =
     Some (double_floor (double_mul (double_div (to_double 25) (to_double 100)) (to_double 8450))) \<and>
   (\<exists>k. estimateFrame 25 8450 = Some (Num (of_int k)) \<and> 0 \<le> k \<and> k \<le> 8450) \<and>
   estimateFrame 25 0 = None \<and>
   currentFrame (fst (onProgress_callback 0 (status_with True 25 0) initial_dashboard)) = Num 0"
proof -
  note th = estimateFrame_is_floor_in_doubles[of 8450 25]
  note tz = estimateFrame_is_floor_in_doubles[of 0 25 "status_with True 25 0" initial_dashboard]
  have pos: "(0::int) < 8450" by simp
  have rng: "(0::int) < 8450 \<and> (8450::int) < 2 ^ 53 \<and> (0::rat) \<le> 25 \<and> (25::rat) \<le> 100" by simp
  have non: "(0::int) \<le> 0" by simp
  note a = th[THEN conjunct1, rule_format, OF pos]
  note b = th[THEN conjunct2, THEN conjunct1, rule_format, OF rng]
  note cd = tz[THEN conjunct2, THEN conjunct2, THEN conjunct1, rule_format, OF non]
  note c = cd[THEN conjunct1]
  note d = cd[THEN conjunct2]
  have e: "currentFrame initial_dashboard = Num 0" by (simp add: initial_dashboard_def)
  have n: "rat_of_int 8450 = 8450" by simp
  from a[unfolded n] b c d[unfolded e] show ?thesis by (intro conjI)
qed

text \<open>
  Claim C6 as first stated fails: the estimate is not clamped.  A reported progress of
  150 gives frame 12675 of 8450, and a reported progress of -10 gives frame -845.
\<close>

theorem estimateFrame_is_not_clamped:
  "estimateFrame 150 8450 = Some (Num 12675) \<and> estimateFrame (- 10) 8450 = Some (Num (- 845))"
proof
  have a: "round_magnitude \<bar>150\<bar> = Some 150"
    using round_magnitude_exact[of 150] by (simp add: precision_def)
  have y: "round_magnitude (150 / 100) = Some (3 / 2)"
    using round_magnitude_at(1)[of 52 "150 / 100"] by (simp add: double_eval)
  have z: "round_magnitude (3 / 2 * of_int 8450) = Some 12675"
    using round_magnitude_exact[of 12675] by (simp add: precision_def)
  from estimateFrame_at[of 8450 150, OF _ _ a _ y _ z]
  show "estimateFrame 150 8450 = Some (Num 12675)" by (simp add: precision_def)
next
  have a: "round_magnitude \<bar>- 10\<bar> = Some 10"
    using round_magnitude_exact[of 10] by (simp add: precision_def)
  have y: "round_magnitude (10 / 100) = Some (3602879701896397 / 36028797018963968)"
    using round_magnitude_at(1)[of 56 "10 / 100"] by (simp add: double_eval)
  have z: "round_magnitude (3602879701896397 / 36028797018963968 * of_int 8450) = Some 845"
    using round_magnitude_at(1)[of 43 "3602879701896397 / 36028797018963968 * 8450"]
    by (simp add: double_eval)
  from estimateFrame_at[of 8450 "- 10", OF _ _ a _ y _ z]
  show "estimateFrame (- 10) 8450 = Some (Num (- 845))" by (simp add: precision_def)
qed

subsection \<open>The connectivity probe\<close>

text \<open>
  Claim C8, as amended.  The probe has no deadline: while its request is pending, the
  passing of any amount of time leaves it pending and changes neither the component
  state nor the toasts.  When the probe fails the backend flag is off and a
  \<open>Backend Disconnected\<close> toast is shown.  Every call of \<open>handleStartProcessing\<close> made
  while the flag is off sends no request, starts no activity and leaves the component state
  as it is; it shows \<open>No Video Loaded\<close> when no video is held and \<open>Backend Unavailable\<close>
  otherwise.
\<close>

theorem start_blocked_while_backend_flag_off:
  "(activity_at w i = AwaitHealth \<longrightarrow>
      activity_at (step (Elapse ms) w) i = AwaitHealth \<and>
      ui (step (Elapse ms) w) = ui w \<and>
      toasts (step (Elapse ms) w) = toasts w \<and>
      sent (step (Elapse ms) w) = sent w) \<and>
   (activity_at w i = AwaitHealth \<and> healthCheck oc = Inl e \<longrightarrow>
      \<not> backendConnected (ui (step (HealthSettles i oc) w)) \<and>
      toasts (step (HealthSettles i oc) w) =
        toasts w @ [Toast Destructive ''Backend Disconnected''
          ''CV/SLAM processing backend is not available. Start the backend server.'']) \<and>
   (\<not> backendConnected (ui w) \<longrightarrow>
      sent (handleStartProcessing w) = sent w \<and>
      activities (handleStartProcessing w) = activities w \<and>
      ui (handleStartProcessing w) = ui w \<and>
      toasts (handleStartProcessing w) =
        toasts w @
          [if uploadedVideo (ui w) = None
           then Toast Destructive ''No Video Loaded'' ''Please upload a video file first.''
           else Toast Destructive ''Backend Unavailable''
                  ''Cannot start processing. Backend server is not running.''])"
proof (intro conjI impI)
  assume "activity_at w i = AwaitHealth"
  then show "activity_at (step (Elapse ms) w) i = AwaitHealth"
    by (auto simp: activity_at_def split: if_splits)
next
  show "ui (step (Elapse ms) w) = ui w" by simp
next
  show "toasts (step (Elapse ms) w) = toasts w" by simp
next
  show "sent (step (Elapse ms) w) = sent w" by simp
next
  assume "activity_at w i = AwaitHealth \<and> healthCheck oc = Inl e"
  then show "\<not> backendConnected (ui (step (HealthSettles i oc) w))"
    by (simp add: checkBackend_settles_def set_activity_def toast_call_def)
next
  assume "activity_at w i = AwaitHealth \<and> healthCheck oc = Inl e"
  then show "toasts (step (HealthSettles i oc) w) =
        toasts w @ [Toast Destructive ''Backend Disconnected''
          ''CV/SLAM processing backend is not available. Start the backend server.'']"
    by (simp add: checkBackend_settles_def set_activity_def toast_call_def)
next
  assume "\<not> backendConnected (ui w)"
  then show "sent (handleStartProcessing w) = sent w"
    by (simp add: handleStartProcessing_def toast_call_def)
next
  assume "\<not> backendConnected (ui w)"
  then show "activities (handleStartProcessing w) = activities w"
    by (simp add: handleStartProcessing_def toast_call_def)
next
  assume "\<not> backendConnected (ui w)"
  then show "ui (handleStartProcessing w) = ui w"
    by (simp add: handleStartProcessing_def toast_call_def)
next
  assume "\<not> backendConnected (ui w)"
  then show "toasts (handleStartProcessing w) =
        toasts w @
          [if uploadedVideo (ui w) = None
           then Toast Destructive ''No Video Loaded'' ''Please upload a video file first.''
           else Toast Destructive ''Backend Unavailable''
                  ''Cannot start processing. Backend server is not running.'']"
    by (simp add: handleStartProcessing_def toast_call_def)
qed

text \<open>
  The theorem right after mounting, with a probe whose \<open>fetch\<close> is rejected after five
  seconds, and in the state that holds a video with the backend flag off.
\<close>

theorem start_blocked_witness:
  "activity_at mounted 0 = AwaitHealth \<and>
   activity_at (step (Elapse 5000) mounted) 0 = AwaitHealth \<and>
   healthCheck (FetchRejected (OtherError ''Failed to fetch'')) =
     Inl (ApiError 0 ''Network error: Failed to fetch'') \<and>
   \<not> backendConnected (ui (step (HealthSettles 0 (FetchRejected (OtherError ''Failed to fetch'')))
       (step (Elapse 5000) mounted))) \<and>
   \<not> backendConnected (ui disconnected_with_video) \<and>
   sent (handleStartProcessing disconnected_with_video) = sent disconnected_with_video \<and>
   toasts (handleStartProcessing disconnected_with_video) =
     [Toast Destructive ''Backend Unavailable''
        ''Cannot start processing. Backend server is not running.'']"
proof -
  have a: "activity_at mounted 0 = AwaitHealth"
    by (simp add: activity_at_def mounted_def)
  have b: "healthCheck (FetchRejected (OtherError ''Failed to fetch'')) =
     Inl (ApiError 0 ''Network error: Failed to fetch'')"
    by (simp add: healthCheck_def apiRequest_def)
  have c: "\<not> backendConnected (ui disconnected_with_video)"
      "uploadedVideo (ui disconnected_with_video) \<noteq> None"
      "toasts disconnected_with_video = []"
    by (simp_all add: disconnected_with_video_def mounted_def initial_dashboard_def)
  note t1 = start_blocked_while_backend_flag_off[of mounted 0 5000]
  from t1 a have d: "activity_at (step (Elapse 5000) mounted) 0 = AwaitHealth" by blast
  note t2 = start_blocked_while_backend_flag_off
    [of "step (Elapse 5000) mounted" 0 _ "FetchRejected (OtherError ''Failed to fetch'')"
        "ApiError 0 ''Network error: Failed to fetch''"]
  from t2 d b have e: "\<not> backendConnected
      (ui (step (HealthSettles 0 (FetchRejected (OtherError ''Failed to fetch'')))
       (step (Elapse 5000) mounted)))"
    by blast
  note t3 = start_blocked_while_backend_flag_off[of disconnected_with_video]
  from t3 c have f: "sent (handleStartProcessing disconnected_with_video) =
      sent disconnected_with_video"
    by blast
  from t3 c(1) have "toasts (handleStartProcessing disconnected_with_video) =
        toasts disconnected_with_video @
          [if uploadedVideo (ui disconnected_with_video) = None
           then Toast Destructive ''No Video Loaded'' ''Please upload a video file first.''
           else Toast Destructive ''Backend Unavailable''
                  ''Cannot start processing. Backend server is not running.'']"
    by blast
  with c have g: "toasts (handleStartProcessing disconnected_with_video) =
     [Toast Destructive ''Backend Unavailable''
        ''Cannot start processing. Backend server is not running.'']"
    by simp
  from a d b e c(1) f g show ?thesis by blast
qed

text \<open>
  Claim C8 as first stated fails: no timeout is ever raised.  Sixty-five seconds after
  mounting, with no answer from the backend, the probe is still pending and nothing has
  been reported; an answer that arrives then is accepted and turns the backend flag on.
\<close>

theorem probe_has_no_deadline:
  "clock (run [Elapse 5000, Elapse 60000] mounted) = 65000 \<and>
   activity_at (run [Elapse 5000, Elapse 60000] mounted) 0 = AwaitHealth \<and>
   toasts (run [Elapse 5000, Elapse 60000] mounted) = [] \<and>
   backendConnected (ui (run [Elapse 5000, Elapse 60000,
     HealthSettles 0 (ok_response sample_health)] mounted))"
  by (simp add: world_eval sample_eval)

subsection \<open>Dropping a file\<close>

text \<open>
  Claim C9, as amended.  The media type is checked before any network call: a dropped
  file whose type does not start with \<open>video/\<close> is refused with an \<open>Invalid File Type\<close>
  toast, and no request is sent and no activity started.  A file whose type starts with
  \<open>video/\<close> is handed to the upload handler whatever its size: with the backend flag on,
  the upload request for it is sent.
\<close>

theorem onDrop_checks_media_type:
  "(\<not> prefix ''video/'' (file_type file) \<longrightarrow>
      onDrop (file # others) w =
        toast_call (Toast Destructive ''Invalid File Type''
          ''Please upload a video file (MP4, AVI, MOV, etc.)'') w \<and>
      sent (onDrop (file # others) w) = sent w \<and>
      activities (onDrop (file # others) w) = activities w) \<and>
   (prefix ''video/'' (file_type file) \<and> backendConnected (ui w) \<longrightarrow>
      sent (onDrop (file # others) w) = sent w @ [uploadVideo_request file] \<and>
      activities (onDrop (file # others) w) = activities w @ [AwaitUpload file])"
  by (simp add: onDrop_def handleVideoUpload_def toast_call_def send_def spawn_def fetch_log_def)

text \<open>The theorem for a text file and for the sample video, with the backend connected.\<close>

theorem onDrop_checks_media_type_witness:
  "\<not> prefix ''video/'' (file_type text_file) \<and>
   sent (onDrop [text_file] (run [HealthSettles 0 (ok_response sample_health)] mounted)) =
     sent (run [HealthSettles 0 (ok_response sample_health)] mounted) \<and>
   toasts (onDrop [text_file] (run [HealthSettles 0 (ok_response sample_health)] mounted)) =
     [Toast Destructive ''Invalid File Type'' ''Please upload a video file (MP4, AVI, MOV, etc.)''] \<and>
   prefix ''video/'' (file_type sample_video) \<and>
   backendConnected (ui (run [HealthSettles 0 (ok_response sample_health)] mounted)) \<and>
   sent (onDrop [sample_video] (run [HealthSettles 0 (ok_response sample_health)] mounted)) =
     sent (run [HealthSettles 0 (ok_response sample_health)] mounted) @
       [uploadVideo_request sample_video]"
proof -
  define w where "w = run [HealthSettles 0 (ok_response sample_health)] mounted"
  have a: "\<not> prefix ''video/'' (file_type text_file)"
    by (simp add: text_file_def)
  have b: "prefix ''video/'' (file_type sample_video)"
    by (simp add: sample_video_def)
  have c: "backendConnected (ui w)" "toasts w = []"
    by (simp_all add: w_def world_eval sample_eval)
  note t1 = onDrop_checks_media_type[of text_file "[]" w]
  note t2 = onDrop_checks_media_type[of sample_video "[]" w]
  from t1 a have d: "sent (onDrop [text_file] w) = sent w" by blast
  from t1 a have "onDrop [text_file] w =
        toast_call (Toast Destructive ''Invalid File Type''
          ''Please upload a video file (MP4, AVI, MOV, etc.)'') w"
    by blast
  then have e: "toasts (onDrop [text_file] w) =
     [Toast Destructive ''Invalid File Type'' ''Please upload a video file (MP4, AVI, MOV, etc.)'']"
    using c(2) by (simp add: toast_call_def)
  from t2 b c(1) have f: "sent (onDrop [sample_video] w) = sent w @ [uploadVideo_request sample_video]"
    by blast
  from a d e b c(1) f show ?thesis unfolding w_def by blast
qed

text \<open>
  Claim C9 as first stated fails: emptiness is not checked.  With the backend connected,
  dropping a video file of 0 bytes sends the upload request and raises no validation
  toast.
\<close>

theorem empty_video_is_sent:
  "file_size empty_video = 0 \<and>
   sent (run [HealthSettles 0 (ok_response sample_health), Drop [empty_video]] mounted) =
     [healthCheck_request, uploadVideo_request empty_video] \<and>
   toasts (run [HealthSettles 0 (ok_response sample_health), Drop [empty_video]] mounted) =
     [Toast Default ''Video Uploaded'' ''empty.mp4 ready for processing'']"
  by (simp add: world_eval sample_eval)


end
